theory Spec2Isabelle
  imports Main "HOL-Library.Word"
begin

unbundle bit_operations_syntax

section \<open>Machine types and errors\<close>

type_synonym byte = "8 word"
type_synonym int32 = "32 word"
type_synonym uint32 = "32 word"
type_synonym int64 = "64 word"

text \<open>
  Go errors. \<open>Errorf fmt args\<close> stands for \<^verbatim>\<open>errors.New\<close>, \<^verbatim>\<open>merry.New\<close>,
  \<^verbatim>\<open>merry.Errorf\<close> and \<^verbatim>\<open>fmt.Errorf\<close>: it keeps the format string of the source
  and the integer arguments. \<^verbatim>\<open>merry.Wrap\<close> only attaches a stack trace and is the
  identity here. \<open>ErrNoSessionData\<close> is the package variable of that name.
\<close>

datatype error = ErrNoSessionData | Errorf string "int list"

text \<open>What stops the program instead of returning: the panics of the Go runtime.\<close>

datatype fault =
    PanicSendOnClosedChannel
  | PanicMakeSliceLen
  | PanicNilDereference

section \<open>TL values\<close>

text \<open>
  Modelled from the spec: the generated schema file (tl_schema.go) with the Go types
  \<^verbatim>\<open>TL_*\<close> is not part of the sources. The constructors below are the meta-constructors
  that \<^verbatim>\<open>process\<close> and \<^verbatim>\<open>DecodeBuf.Object\<close> name, each with the fields those functions
  read or write. \<open>TL_object tag payload\<close> is any other schema object, kept opaque, and
  \<open>TL_nil\<close> is the nil interface value.
\<close>

datatype TL =
    TL_nil
  | TL_msg_container "TL_MT_message list"  \<comment> \<open>\<^verbatim>\<open>Items\<close>\<close>
  | TL_bad_server_salt int64 int64  \<comment> \<open>\<^verbatim>\<open>BadMsgID\<close>, \<^verbatim>\<open>NewServerSalt\<close>\<close>
  | TL_bad_msg_notification int64  \<comment> \<open>\<^verbatim>\<open>BadMsgID\<close>\<close>
  | TL_msgs_state_info int64  \<comment> \<open>\<^verbatim>\<open>ReqMsgID\<close>\<close>
  | TL_new_session_created int64  \<comment> \<open>\<^verbatim>\<open>ServerSalt\<close>\<close>
  | TL_ping int64  \<comment> \<open>\<^verbatim>\<open>PingID\<close>\<close>
  | TL_pong int64 int64  \<comment> \<open>\<^verbatim>\<open>MsgID\<close>, \<^verbatim>\<open>PingID\<close>\<close>
  | TL_msgs_ack "int64 list"  \<comment> \<open>\<^verbatim>\<open>MsgIds\<close>\<close>
  | TL_rpc_result int64 TL  \<comment> \<open>\<^verbatim>\<open>req_msg_id\<close>, \<^verbatim>\<open>obj\<close>\<close>
  | TL_object uint32 "byte list"
and TL_MT_message =
    TL_MT_message (MsgID: int64) (SeqNo: int32) (Bytes: int32) (Data: TL)

section \<open>The decode buffer\<close>

text \<open>
  \<^verbatim>\<open>type DecodeBuf struct { buf []byte; off int; size int; err error }\<close>.
  Go's \<^verbatim>\<open>int\<close> has 64 bits; offsets and sizes stay far below \<open>2 ^ 63\<close> (they are
  bounded by the length of a slice), so they are integers here and the one addition
  that a caller can push over the limit (in \<^verbatim>\<open>Bytes\<close>) is written out.
  A nil slice is the empty list: the source never compares a slice with nil.
\<close>

record DecodeBuf =
  buf :: "byte list"
  off :: int
  sizeD :: int
  err :: "error option"

definition NewDecodeBuf :: "byte list \<Rightarrow> DecodeBuf" where
  "NewDecodeBuf b = \<lparr>buf = b, off = 0, sizeD = int (length b), err = None\<rparr>"

text \<open>\<^verbatim>\<open>b[lo:hi]\<close> for \<open>0 \<le> lo \<le> hi \<le> len(b)\<close>.\<close>

definition slice :: "'a list \<Rightarrow> int \<Rightarrow> int \<Rightarrow> 'a list" where
  "slice b lo hi = take (nat (hi - lo)) (drop (nat lo) b)"

text \<open>\<^verbatim>\<open>binary.LittleEndian.Uint32\<close> and \<^verbatim>\<open>Uint64\<close>: the first byte is the lowest.\<close>

fun le_word :: "byte list \<Rightarrow> 'a::len word" where
  "le_word [] = 0"
| "le_word (b # bs) = ucast b OR push_bit 8 (le_word bs)"

definition LittleEndian_Uint32 :: "byte list \<Rightarrow> uint32" where
  "LittleEndian_Uint32 b = le_word (take 4 b)"

definition LittleEndian_Uint64 :: "byte list \<Rightarrow> 64 word" where
  "LittleEndian_Uint64 b = le_word (take 8 b)"

definition errors_New :: "string \<Rightarrow> error" where
  "errors_New s = Errorf s []"

definition DecodeBuf_Long :: "DecodeBuf \<Rightarrow> int64 \<times> DecodeBuf" where
  "DecodeBuf_Long m =
     (if err m \<noteq> None then (0, m)
      else if off m + 8 > sizeD m then (0, m\<lparr>err := Some (errors_New ''DecodeLong'')\<rparr>)
      else (LittleEndian_Uint64 (slice (buf m) (off m) (off m + 8)), m\<lparr>off := off m + 8\<rparr>))"

text \<open>A \<^verbatim>\<open>float64\<close> is kept as its IEEE bit pattern; the zero value is the pattern 0.\<close>

definition DecodeBuf_Double :: "DecodeBuf \<Rightarrow> 64 word \<times> DecodeBuf" where
  "DecodeBuf_Double m =
     (if err m \<noteq> None then (0, m)
      else if off m + 8 > sizeD m then (0, m\<lparr>err := Some (errors_New ''DecodeDouble'')\<rparr>)
      else (LittleEndian_Uint64 (slice (buf m) (off m) (off m + 8)), m\<lparr>off := off m + 8\<rparr>))"

definition DecodeBuf_Int :: "DecodeBuf \<Rightarrow> int32 \<times> DecodeBuf" where
  "DecodeBuf_Int m =
     (if err m \<noteq> None then (0, m)
      else if off m + 4 > sizeD m then (0, m\<lparr>err := Some (errors_New ''DecodeInt'')\<rparr>)
      else (LittleEndian_Uint32 (slice (buf m) (off m) (off m + 4)), m\<lparr>off := off m + 4\<rparr>))"

definition DecodeBuf_UInt :: "DecodeBuf \<Rightarrow> uint32 \<times> DecodeBuf" where
  "DecodeBuf_UInt m =
     (if err m \<noteq> None then (0, m)
      else if off m + 4 > sizeD m then (0, m\<lparr>err := Some (errors_New ''DecodeUInt'')\<rparr>)
      else (LittleEndian_Uint32 (slice (buf m) (off m) (off m + 4)), m\<lparr>off := off m + 4\<rparr>))"

text \<open>
  \<^verbatim>\<open>Bytes(size int)\<close>. The sum \<^verbatim>\<open>m.off+size\<close> wraps at \<open>2 ^ 63\<close>. A negative size, and
  a size that made the sum wrap, pass the bounds test and reach \<^verbatim>\<open>make([]byte, size)\<close>,
  which panics.
\<close>

definition wrap_int64 :: "int \<Rightarrow> int" where
  "wrap_int64 x = sint (word_of_int x :: 64 word)"

definition DecodeBuf_Bytes :: "DecodeBuf \<Rightarrow> int \<Rightarrow> fault + (byte list \<times> DecodeBuf)" where
  "DecodeBuf_Bytes m n =
     (if err m \<noteq> None then Inr ([], m)
      else if wrap_int64 (off m + n) > sizeD m
        then Inr ([], m\<lparr>err := Some (errors_New ''DecodeBytes'')\<rparr>)
      else if n < 0 \<or> off m + n \<ge> 2 ^ 63 then Inl PanicMakeSliceLen
      else Inr (slice (buf m) (off m) (off m + n), m\<lparr>off := off m + n\<rparr>))"

definition byte_int :: "byte \<Rightarrow> int" where
  "byte_int b = uint b"

definition DecodeBuf_StringBytes :: "DecodeBuf \<Rightarrow> byte list \<times> DecodeBuf" where
  "DecodeBuf_StringBytes m =
     (if err m \<noteq> None then ([], m)
      else if off m + 1 > sizeD m
        then ([], m\<lparr>err := Some (errors_New ''DecodeStringBytes'')\<rparr>)
      else
        let size0 = byte_int (buf m ! nat (off m));
            m1 = m\<lparr>off := off m + 1\<rparr>;
            padding0 = (4 - ((size0 + 1) mod 4)) AND 3
        in if size0 = 254 \<and> off m1 + 3 > sizeD m1
           then ([], m1\<lparr>err := Some (errors_New ''DecodeStringBytes'')\<rparr>)
           else
             let size = (if size0 = 254
                   then byte_int (buf m1 ! nat (off m1))
                        OR push_bit 8 (byte_int (buf m1 ! nat (off m1 + 1)))
                        OR push_bit 16 (byte_int (buf m1 ! nat (off m1 + 2)))
                   else size0);
                 m2 = (if size0 = 254 then m1\<lparr>off := off m1 + 3\<rparr> else m1);
                 padding = (if size0 = 254 then (4 - size mod 4) AND 3 else padding0)
             in if off m2 + size > sizeD m2
                then ([], m2\<lparr>err := Some (Errorf
                   ''DecodeStringBytes: Wrong size: expected %d+%d=%d, buffer is %d''
                   [off m2, size, off m2 + size, sizeD m2])\<rparr>)
                else
                  let x = slice (buf m2) (off m2) (off m2 + size);
                      m3 = m2\<lparr>off := off m2 + size\<rparr>
                  in if off m3 + padding > sizeD m3
                     then ([], m3\<lparr>err := Some (errors_New ''DecodeStringBytes: Wrong padding'')\<rparr>)
                     else (x, m3\<lparr>off := off m3 + padding\<rparr>))"

text \<open>A Go string is a byte sequence; \<^verbatim>\<open>string(b)\<close> keeps the bytes.\<close>

type_synonym gostring = "byte list"

definition DecodeBuf_String :: "DecodeBuf \<Rightarrow> gostring \<times> DecodeBuf" where
  "DecodeBuf_String m =
     (let (b, m1) = DecodeBuf_StringBytes m
      in if err m1 \<noteq> None then ([], m1) else (b, m1))"

text \<open>
  \<^verbatim>\<open>big.Int.SetBytes\<close> reads its argument as a big-endian unsigned integer. A
  \<^verbatim>\<open>*big.Int\<close> is an optional integer, \<open>None\<close> the nil pointer.
\<close>

definition big_SetBytes :: "byte list \<Rightarrow> int" where
  "big_SetBytes y = foldl (\<lambda>acc b. acc * 256 + byte_int b) 0 y"

definition DecodeBuf_BigInt :: "DecodeBuf \<Rightarrow> int option \<times> DecodeBuf" where
  "DecodeBuf_BigInt m =
     (let (b, m1) = DecodeBuf_StringBytes m
      in if err m1 \<noteq> None then (None, m1)
         else let y = (0 :: byte) # b in (Some (big_SetBytes y), m1))"

subsection \<open>Vectors, booleans and objects\<close>

text \<open>
  What the decoder takes from outside this file: the constructor ids of the generated
  schema (constants of tl_schema.go), the generated decoder \<^verbatim>\<open>ObjectGenerated\<close>, which gets
  \<^verbatim>\<open>m.Object\<close> for the objects nested in the one it reads, and the gzip library.
  \<open>gunzip b\<close> is \<open>None\<close> when \<^verbatim>\<open>gzip.NewReader\<close> fails (the source drops that error
  and then reads from a nil reader), and otherwise the bytes read until a read returns
  nothing.
\<close>

type_synonym 'a decoded = "(fault + 'a \<times> DecodeBuf) option"

record codec_env =
  CRC_vector :: uint32
  CRC_boolFalse :: uint32
  CRC_boolTrue :: uint32
  CRC_msg_container :: uint32
  CRC_rpc_result :: uint32
  CRC_gzip_packed :: uint32
  ObjectGenerated :: "(DecodeBuf \<Rightarrow> TL decoded) \<Rightarrow> uint32 \<Rightarrow> DecodeBuf \<Rightarrow> TL decoded"
  gunzip :: "byte list \<Rightarrow> byte list option"

text \<open>The loop \<^verbatim>\<open>for i < size { y := read(); if m.err != nil { return nil }; x[i] = y; i++ }\<close>.\<close>

fun vector_loop :: "(DecodeBuf \<Rightarrow> 'a \<times> DecodeBuf) \<Rightarrow> nat \<Rightarrow> DecodeBuf \<Rightarrow> 'a list
    \<Rightarrow> 'a list \<times> DecodeBuf" where
  "vector_loop rd 0 m x = (x, m)"
| "vector_loop rd (Suc n) m x =
     (let (y, m1) = rd m
      in if err m1 \<noteq> None then ([], m1) else vector_loop rd n m1 (x @ [y]))"

text \<open>The head shared by the four vector readers; \<open>who\<close> is the name in the messages.\<close>

definition vector_of :: "codec_env \<Rightarrow> string \<Rightarrow> (DecodeBuf \<Rightarrow> 'a \<times> DecodeBuf) \<Rightarrow> DecodeBuf
    \<Rightarrow> 'a list \<times> DecodeBuf" where
  "vector_of env who rd m =
     (let (constructor, m1) = DecodeBuf_UInt m
      in if err m1 \<noteq> None then ([], m1)
         else if constructor \<noteq> CRC_vector env
           then ([], m1\<lparr>err := Some (Errorf (who @ '': Wrong constructor (0x%08x)'')
                                     [uint constructor])\<rparr>)
         else
           let (size, m2) = DecodeBuf_Int m1
           in if err m2 \<noteq> None then ([], m2)
              else if sint size < 0
                then ([], m2\<lparr>err := Some (errors_New (who @ '': Wrong size''))\<rparr>)
              else vector_loop rd (nat (sint size)) m2 [])"

definition DecodeBuf_VectorInt :: "codec_env \<Rightarrow> DecodeBuf \<Rightarrow> int32 list \<times> DecodeBuf" where
  "DecodeBuf_VectorInt env m = vector_of env ''DecodeVectorInt'' DecodeBuf_Int m"

definition DecodeBuf_VectorLong :: "codec_env \<Rightarrow> DecodeBuf \<Rightarrow> int64 list \<times> DecodeBuf" where
  "DecodeBuf_VectorLong env m = vector_of env ''DecodeVectorLong'' DecodeBuf_Long m"

definition DecodeBuf_VectorString :: "codec_env \<Rightarrow> DecodeBuf \<Rightarrow> gostring list \<times> DecodeBuf" where
  "DecodeBuf_VectorString env m = vector_of env ''DecodeVectorString'' DecodeBuf_String m"

definition DecodeBuf_Bool :: "codec_env \<Rightarrow> DecodeBuf \<Rightarrow> bool \<times> DecodeBuf" where
  "DecodeBuf_Bool env m =
     (let (constructor, m1) = DecodeBuf_UInt m
      in if err m1 \<noteq> None then (False, m1)
         else if constructor = CRC_boolFalse env then (False, m1)
         else if constructor = CRC_boolTrue env then (True, m1)
         else (False, m1))"

text \<open>
  The repetitions in \<^verbatim>\<open>Object\<close> (container items) and of \<^verbatim>\<open>Vector\<close>: each item is read by
  \<open>rd\<close>, which may run out of fuel or panic.
\<close>

fun object_loop :: "(DecodeBuf \<Rightarrow> 'a decoded) \<Rightarrow> nat \<Rightarrow> DecodeBuf \<Rightarrow> 'a list
    \<Rightarrow> (fault + 'a list option \<times> DecodeBuf) option" where
  "object_loop rd 0 m arr = Some (Inr (Some arr, m))"
| "object_loop rd (Suc n) m arr =
     (case rd m of
        None \<Rightarrow> None
      | Some (Inl f) \<Rightarrow> Some (Inl f)
      | Some (Inr (y, m1)) \<Rightarrow>
          if err m1 \<noteq> None then Some (Inr (None, m1))
          else object_loop rd n m1 (arr @ [y]))"

text \<open>One container item: \<^verbatim>\<open>TL_MT_message{m.Long(), m.Int(), m.Int(), m.Object()}\<close>.\<close>

definition read_MT_message :: "(DecodeBuf \<Rightarrow> TL decoded) \<Rightarrow> DecodeBuf \<Rightarrow> TL_MT_message decoded" where
  "read_MT_message object m =
     (let (a, m1) = DecodeBuf_Long m;
          (b, m2) = DecodeBuf_Int m1;
          (c, m3) = DecodeBuf_Int m2
      in case object m3 of
           None \<Rightarrow> None
         | Some (Inl f) \<Rightarrow> Some (Inl f)
         | Some (Inr (d, m4)) \<Rightarrow> Some (Inr (TL_MT_message a b c d, m4)))"

text \<open>
  \<^verbatim>\<open>Object\<close> calls itself on nested objects and on the unpacked content of a
  \<^verbatim>\<open>gzip_packed\<close>, which can be longer than the input: the recursion is bounded by fuel,
  and \<open>None\<close> means that the fuel ran out. The final test of \<^verbatim>\<open>m.err\<close> is \<open>finish\<close>;
  the line it writes to the process log is not modelled.
\<close>

definition finish :: "TL \<Rightarrow> DecodeBuf \<Rightarrow> TL decoded" where
  "finish r m = (if err m \<noteq> None then Some (Inr (TL_nil, m)) else Some (Inr (r, m)))"

primrec DecodeBuf_Object :: "codec_env \<Rightarrow> nat \<Rightarrow> DecodeBuf \<Rightarrow> TL decoded" where
  "DecodeBuf_Object env 0 = (\<lambda>m. None)"
| "DecodeBuf_Object env (Suc k) = (\<lambda>m.
     let (constructor, m1) = DecodeBuf_UInt m
     in if err m1 \<noteq> None then Some (Inr (TL_nil, m1))
        else if constructor = CRC_msg_container env then
          (let (size, m2) = DecodeBuf_Int m1
           in if sint size < 0 then Some (Inl PanicMakeSliceLen)
              else case object_loop (read_MT_message (DecodeBuf_Object env k))
                          (nat (sint size)) m2 [] of
                     None \<Rightarrow> None
                   | Some (Inl f) \<Rightarrow> Some (Inl f)
                   | Some (Inr (None, m3)) \<Rightarrow> Some (Inr (TL_nil, m3))
                   | Some (Inr (Some arr, m3)) \<Rightarrow> finish (TL_msg_container arr) m3)
        else if constructor = CRC_rpc_result env then
          (let (a, m2) = DecodeBuf_Long m1
           in case DecodeBuf_Object env k m2 of
                None \<Rightarrow> None
              | Some (Inl f) \<Rightarrow> Some (Inl f)
              | Some (Inr (b, m3)) \<Rightarrow> finish (TL_rpc_result a b) m3)
        else if constructor = CRC_gzip_packed env then
          (let (packed, m2) = DecodeBuf_StringBytes m1
           in case gunzip env packed of
                None \<Rightarrow> Some (Inl PanicNilDereference)
              | Some unpacked \<Rightarrow>
                  (case DecodeBuf_Object env k (NewDecodeBuf unpacked) of
                     None \<Rightarrow> None
                   | Some (Inl f) \<Rightarrow> Some (Inl f)
                   | Some (Inr (r, d)) \<Rightarrow> finish r m2))
        else
          (case ObjectGenerated env (DecodeBuf_Object env k) constructor m1 of
             None \<Rightarrow> None
           | Some (Inl f) \<Rightarrow> Some (Inl f)
           | Some (Inr (r, m2)) \<Rightarrow> finish r m2))"

definition DecodeBuf_Vector :: "codec_env \<Rightarrow> nat \<Rightarrow> DecodeBuf \<Rightarrow> TL list decoded" where
  "DecodeBuf_Vector env k m =
     (let (constructor, m1) = DecodeBuf_UInt m
      in if err m1 \<noteq> None then Some (Inr ([], m1))
         else if constructor \<noteq> CRC_vector env
           then Some (Inr ([], m1\<lparr>err := Some (Errorf ''DecodeVector: Wrong constructor (0x%08x)''
                                                 [uint constructor])\<rparr>))
         else
           let (size, m2) = DecodeBuf_Int m1
           in if err m2 \<noteq> None then Some (Inr ([], m2))
              else if sint size < 0
                then Some (Inr ([], m2\<lparr>err := Some (errors_New ''DecodeVector: Wrong size'')\<rparr>))
              else case object_loop (DecodeBuf_Object env k) (nat (sint size)) m2 [] of
                     None \<Rightarrow> None
                   | Some (Inl f) \<Rightarrow> Some (Inl f)
                   | Some (Inr (None, m3)) \<Rightarrow> Some (Inr ([], m3))
                   | Some (Inr (Some x, m3)) \<Rightarrow> Some (Inr (x, m3)))"

section \<open>The encode buffer\<close>

text \<open>
  Modelled from the spec: the encoder (\<^verbatim>\<open>NewEncodeBuf\<close>, \<^verbatim>\<open>EncodeBuf.StringBytes\<close>,
  \<^verbatim>\<open>EncodeBuf.Long\<close>, \<^verbatim>\<open>EncodeBuf.String\<close>) is called by \<^verbatim>\<open>SessFileStore.Save\<close> but its file
  is not part of the sources. The spec's byte codec: little-endian primitives; a string
  of length below 254 is one length byte, the bytes, and zero padding to a 4-byte
  boundary; a longer one is the marker \<open>0xFE\<close>, three length bytes (little-endian), the
  bytes, and zero padding, so that every encoded string has a length divisible by 4.
\<close>

record EncodeBuf =
  ebuf :: "byte list"

definition NewEncodeBuf :: "nat \<Rightarrow> EncodeBuf" where
  "NewEncodeBuf cap = \<lparr>ebuf = []\<rparr>"

fun le_bytes :: "nat \<Rightarrow> 'a::len word \<Rightarrow> byte list" where
  "le_bytes 0 w = []"
| "le_bytes (Suc n) w = ucast w # le_bytes n (drop_bit 8 w)"

definition string_bytes_frame :: "byte list \<Rightarrow> byte list" where
  "string_bytes_frame s =
     (let size = length s
      in if size < 254
         then [of_nat size] @ s @ replicate ((4 - (size + 1) mod 4) mod 4) 0
         else [254, of_nat size, of_nat (size div 256), of_nat (size div 65536)]
              @ s @ replicate ((4 - size mod 4) mod 4) 0)"

definition EncodeBuf_StringBytes :: "EncodeBuf \<Rightarrow> byte list \<Rightarrow> EncodeBuf" where
  "EncodeBuf_StringBytes e s = e\<lparr>ebuf := ebuf e @ string_bytes_frame s\<rparr>"

definition EncodeBuf_String :: "EncodeBuf \<Rightarrow> gostring \<Rightarrow> EncodeBuf" where
  "EncodeBuf_String e s = EncodeBuf_StringBytes e s"

definition EncodeBuf_Long :: "EncodeBuf \<Rightarrow> int64 \<Rightarrow> EncodeBuf" where
  "EncodeBuf_Long e x = e\<lparr>ebuf := ebuf e @ le_bytes 8 x\<rparr>"

section \<open>Sessions and their stores\<close>

record SessionInfo =
  DcID :: int32
  AuthKey :: "byte list"
  AuthKeyHash :: "byte list"
  ServerSalt :: int64
  Addr :: gostring
  sessionId :: int64

text \<open>
  \<^verbatim>\<open>SessionStore\<close> is an interface whose implementations act on something outside the
  program; \<open>'w\<close> is that outside world. \<^verbatim>\<open>Save\<close> reads the session and changes the
  world; \<^verbatim>\<open>Load\<close> reads the world and changes the session.
\<close>

record 'w SessionStore =
  Save :: "SessionInfo \<Rightarrow> 'w \<Rightarrow> error option \<times> 'w"
  Load :: "SessionInfo \<Rightarrow> 'w \<Rightarrow> error option \<times> SessionInfo"

definition SessNoopStore :: "'w SessionStore" where
  "SessNoopStore =
     \<lparr>Save = (\<lambda>sess w. (None, w)),
      Load = (\<lambda>sess w. (Some (Errorf ''can not load'' []), sess))\<rparr>"

text \<open>
  The file system of \<^verbatim>\<open>SessFileStore\<close>: the content of each file that exists, the paths
  that \<^verbatim>\<open>os.Create\<close> and \<^verbatim>\<open>os.Open\<close> refuse, and the number of bytes that one write
  can store (a longer write is cut short and returns an error).
\<close>

record filesys =
  files :: "string \<rightharpoonup> byte list"
  denied :: "string \<Rightarrow> bool"
  quota :: nat

definition SessFileStore_Save :: "string \<Rightarrow> SessionInfo \<Rightarrow> filesys \<Rightarrow> error option \<times> filesys" where
  "SessFileStore_Save FPath sess fs =
     (if denied fs FPath then (Some (Errorf ''os.Create'' []), fs)
      else
        let fs1 = fs\<lparr>files := (files fs)(FPath \<mapsto> [])\<rparr>;
            b = NewEncodeBuf 1024;
            b = EncodeBuf_StringBytes b (AuthKey sess);
            b = EncodeBuf_StringBytes b (AuthKeyHash sess);
            b = EncodeBuf_Long b (ServerSalt sess);
            b = EncodeBuf_String b (Addr sess)
        in if length (ebuf b) > quota fs1
           then (Some (Errorf ''write'' []),
                 fs1\<lparr>files := (files fs1)(FPath \<mapsto> take (quota fs1) (ebuf b))\<rparr>)
           else (None, fs1\<lparr>files := (files fs1)(FPath \<mapsto> ebuf b)\<rparr>))"

text \<open>
  \<^verbatim>\<open>Load\<close> reads once into a zeroed buffer of 4096 bytes and decodes that buffer. A read
  from an empty file returns \<^verbatim>\<open>io.EOF\<close>. The fields are assigned before the decoder's
  error is looked at.
\<close>

definition SessFileStore_Load :: "string \<Rightarrow> SessionInfo \<Rightarrow> filesys \<Rightarrow> error option \<times> SessionInfo" where
  "SessFileStore_Load FPath sess fs =
     (case files fs FPath of
        None \<Rightarrow> (Some ErrNoSessionData, sess)
      | Some content \<Rightarrow>
          if denied fs FPath then (Some (Errorf ''os.Open'' []), sess)
          else if content = [] then (Some (Errorf ''EOF'' []), sess)
          else
            let b = take (1024 * 4) content @ replicate (1024 * 4 - length content) 0;
                d = NewDecodeBuf b;
                (authKey, d) = DecodeBuf_StringBytes d;
                (authKeyHash, d) = DecodeBuf_StringBytes d;
                (serverSalt, d) = DecodeBuf_Long d;
                (addr, d) = DecodeBuf_String d;
                sess1 = sess\<lparr>AuthKey := authKey, AuthKeyHash := authKeyHash,
                             ServerSalt := serverSalt, Addr := addr\<rparr>
            in if err d \<noteq> None then (err d, sess1) else (None, sess1))"

definition SessFileStore :: "string \<Rightarrow> filesys SessionStore" where
  "SessFileStore FPath = \<lparr>Save = SessFileStore_Save FPath, Load = SessFileStore_Load FPath\<rparr>"

section \<open>The client state\<close>

text \<open>
  Packets are shared through pointers (the pending table, the send queue and the caller
  of \<^verbatim>\<open>Send\<close> hold the same \<^verbatim>\<open>*packetToSend\<close>), and so are response channels. Both live
  in stores: a pointer is an index into \<open>packets\<close>, a channel an index into \<open>chans\<close>.
\<close>

type_synonym packet_ptr = nat
type_synonym chan_ref = nat

record packetToSend =
  msgID :: int64
  seqNo :: int32
  msg :: TL
  resp :: "chan_ref option"
  needAck :: bool

definition newPacket :: "TL \<Rightarrow> chan_ref option \<Rightarrow> packetToSend" where
  "newPacket msg0 resp0 = \<lparr>msgID = 0, seqNo = 0, msg = msg0, resp = resp0, needAck = False\<rparr>"

text \<open>
  A channel of TL values: what was sent on it, in order, and whether it was closed.
  A send that has to wait for room is modelled by its completion; a send on a closed
  channel panics.
\<close>

record chan =
  sent :: "TL list"
  closed :: bool

text \<open>
  Modelled from the spec: the type \<^verbatim>\<open>TL_dcOption\<close> belongs to the generated schema; these
  are the fields that \<^verbatim>\<open>DCAddr\<close> reads.
\<close>

record TL_dcOption =
  ID :: int32
  Ipv6 :: bool
  IpAddress :: gostring
  Port :: int32

datatype log_level = LvDebug | LvInfo | LvWarn | LvError

text \<open>
  The fields of \<^verbatim>\<open>MTProto\<close> that the functions below use. \<open>log\<close> is what the logger
  received: the level and the format string of each call. \<open>sendQueue\<close> is the sequence
  of packets sent on the internal queue and not yet taken by the send worker.
  \<open>routinesStop\<close> counts the stop tokens in that channel, \<open>reconnSemaphore\<close> tells whether
  the semaphore channel holds its token, \<open>routinesWG\<close> is the counter of the wait group.
  \<open>handleEvent\<close> tells whether a handler is set, and \<open>events\<close> lists the values for which
  a handler task was started. The mutex is not modelled: each function below runs alone.
\<close>

record 'w MTProto =
  sessionStore :: "'w SessionStore"
  world :: 'w
  session :: SessionInfo
  conn :: "nat option"
  log :: "(log_level \<times> string) list"
  sendQueue :: "packet_ptr list"
  routinesStop :: nat
  routinesWG :: int
  reconnSemaphore :: bool
  encryptionReady :: bool
  msgsByID :: "int64 \<rightharpoonup> packet_ptr"
  handleEvent :: bool
  events :: "TL list"
  dcOptions :: "TL_dcOption list"
  packets :: "packetToSend list"
  chans :: "chan list"

definition ROUTINES_COUNT :: nat where
  "ROUTINES_COUNT = 4"

definition logf :: "log_level \<Rightarrow> string \<Rightarrow> 'w MTProto \<Rightarrow> 'w MTProto" where
  "logf lv fmt m = m\<lparr>log := log m @ [(lv, fmt)]\<rparr>"

text \<open>\<^verbatim>\<open>m.sendQueue <- newPacket(msg, resp)\<close>: a new packet, and its pointer on the queue.\<close>

definition enqueue_new :: "packetToSend \<Rightarrow> 'w MTProto \<Rightarrow> 'w MTProto" where
  "enqueue_new p m =
     m\<lparr>packets := packets m @ [p], sendQueue := sendQueue m @ [length (packets m)]\<rparr>"

definition SaveSessionLogged :: "'w MTProto \<Rightarrow> 'w MTProto" where
  "SaveSessionLogged m =
     (case Save (sessionStore m) (session m) (world m) of
        (Some e, w) \<Rightarrow> logf LvError ''failed to save session data'' (m\<lparr>world := w\<rparr>)
      | (None, w) \<Rightarrow> m\<lparr>world := w\<rparr>)"

text \<open>\<^verbatim>\<open>fmt.Sprintf("%s:%d", o.IpAddress, o.Port)\<close>.\<close>

fun decimal :: "nat \<Rightarrow> byte list" where
  "decimal n = (if n < 10 then [48 + of_nat n] else decimal (n div 10) @ [48 + of_nat (n mod 10)])"

definition format_d :: "int \<Rightarrow> byte list" where
  "format_d i = (if i < 0 then 45 # decimal (nat (- i)) else decimal (nat i))"

fun DCAddr :: "TL_dcOption list \<Rightarrow> int32 \<Rightarrow> bool \<Rightarrow> gostring option" where
  "DCAddr [] dcID ipv6 = None"
| "DCAddr (o1 # os) dcID ipv6 =
     (if ID o1 = dcID \<and> Ipv6 o1 = ipv6
      then Some (IpAddress o1 @ [58] @ format_d (sint (Port o1)))
      else DCAddr os dcID ipv6)"

subsection \<open>The pending table\<close>

text \<open>
  Go visits the keys of a map in an order of its own. \<open>ro t\<close> is the order in which a
  \<^verbatim>\<open>range\<close> over the table \<open>t\<close> visits its keys. An entry deleted before the loop
  reaches it is not visited.
\<close>

type_synonym range_order = "(int64 \<rightharpoonup> packet_ptr) \<Rightarrow> int64 list"

fun pop_loop :: "int64 list \<Rightarrow> (int64 \<rightharpoonup> packet_ptr) \<Rightarrow> packet_ptr list
    \<Rightarrow> (int64 \<rightharpoonup> packet_ptr) \<times> packet_ptr list" where
  "pop_loop [] t ps = (t, ps)"
| "pop_loop (i # ids) t ps =
     (case t i of
        None \<Rightarrow> pop_loop ids t ps
      | Some packet \<Rightarrow> pop_loop ids (t(i := None)) (ps @ [packet]))"

definition popPendingPacketsUnlocked :: "range_order \<Rightarrow> 'w MTProto \<Rightarrow> packet_ptr list \<times> 'w MTProto" where
  "popPendingPacketsUnlocked ro m =
     (let (t, ps) = pop_loop (ro (msgsByID m)) (msgsByID m) []
      in (ps, logf LvDebug ''popped %d pending packet(s): %#v'' (m\<lparr>msgsByID := t\<rparr>)))"

definition pushPendingPacketsUnlocked :: "packet_ptr list \<Rightarrow> 'w MTProto \<Rightarrow> 'w MTProto" where
  "pushPendingPacketsUnlocked ps m =
     logf LvDebug ''pushed %d pending packet(s)'' (m\<lparr>sendQueue := sendQueue m @ ps\<rparr>)"

definition resendPendingPackets :: "range_order \<Rightarrow> 'w MTProto \<Rightarrow> 'w MTProto" where
  "resendPendingPackets ro m =
     (let (ps, m1) = popPendingPacketsUnlocked ro m in pushPendingPacketsUnlocked ps m1)"

definition clearPacketData :: "int64 \<Rightarrow> TL \<Rightarrow> 'w MTProto \<Rightarrow> fault + 'w MTProto" where
  "clearPacketData msgID0 response m =
     (case msgsByID m msgID0 of
        None \<Rightarrow> Inr m
      | Some packet \<Rightarrow>
          (case resp (packets m ! packet) of
             None \<Rightarrow>
               Inr ((logf LvWarn ''second response to message #%d %#v'' m)
                      \<lparr>msgsByID := (msgsByID m)(msgID0 := None)\<rparr>)
           | Some c \<Rightarrow>
               if closed (chans m ! c) then Inl PanicSendOnClosedChannel
               else Inr (m\<lparr>chans := (chans m)[c := \<lparr>sent = sent (chans m ! c) @ [response],
                                                    closed = True\<rparr>],
                           packets := (packets m)[packet := (packets m ! packet)\<lparr>resp := None\<rparr>],
                           msgsByID := (msgsByID m)(msgID0 := None)\<rparr>)))"

subsection \<open>The dispatcher\<close>

text \<open>The loop of the \<^verbatim>\<open>msgs_ack\<close> branch.\<close>

fun ack_loop :: "int64 list \<Rightarrow> 'w MTProto \<Rightarrow> 'w MTProto" where
  "ack_loop [] m = m"
| "ack_loop (i # ids) m =
     (case msgsByID m i of
        None \<Rightarrow> ack_loop ids m
      | Some packet \<Rightarrow>
          let m1 = m\<lparr>packets := (packets m)[packet := (packets m ! packet)\<lparr>needAck := False\<rparr>]\<rparr>
          in if resp (packets m1 ! packet) = None
             then ack_loop ids (m1\<lparr>msgsByID := (msgsByID m1)(i := None)\<rparr>)
             else ack_loop ids m1)"

text \<open>The last statement of \<^verbatim>\<open>process\<close>: \<^verbatim>\<open>if (seqNo & 1) == 1 { m.sendQueue <- ... }\<close>.\<close>

definition ack_odd :: "int64 \<Rightarrow> int32 \<Rightarrow> fault + 'w MTProto \<Rightarrow> fault + 'w MTProto" where
  "ack_odd msgId0 seqNo0 r =
     (case r of
        Inl f \<Rightarrow> Inl f
      | Inr m \<Rightarrow>
          if seqNo0 AND 1 = 1 then Inr (enqueue_new (newPacket (TL_msgs_ack [msgId0]) None) m)
          else Inr m)"

definition pass_to_handler :: "TL \<Rightarrow> bool \<Rightarrow> 'w MTProto \<Rightarrow> 'w MTProto" where
  "pass_to_handler dataTL mayPassToHandler m =
     (if mayPassToHandler \<and> handleEvent m then m\<lparr>events := events m @ [dataTL]\<rparr> else m)"

fun process :: "range_order \<Rightarrow> 'w MTProto \<Rightarrow> int64 \<Rightarrow> int32 \<Rightarrow> TL \<Rightarrow> bool \<Rightarrow> fault + 'w MTProto"
and process_items :: "range_order \<Rightarrow> 'w MTProto \<Rightarrow> TL_MT_message list \<Rightarrow> fault + 'w MTProto" where
  "process ro m msgId0 seqNo0 (TL_msg_container items) mayPassToHandler =
     ack_odd msgId0 seqNo0 (process_items ro m items)"
| "process ro m msgId0 seqNo0 (TL_bad_server_salt badMsgID newServerSalt) mayPassToHandler =
     ack_odd msgId0 seqNo0
       (Inr (resendPendingPackets ro
          (SaveSessionLogged (m\<lparr>session := (session m)\<lparr>ServerSalt := newServerSalt\<rparr>\<rparr>))))"
| "process ro m msgId0 seqNo0 (TL_bad_msg_notification badMsgID) mayPassToHandler =
     ack_odd msgId0 seqNo0 (clearPacketData badMsgID (TL_bad_msg_notification badMsgID) m)"
| "process ro m msgId0 seqNo0 (TL_msgs_state_info reqMsgID) mayPassToHandler =
     ack_odd msgId0 seqNo0 (clearPacketData reqMsgID (TL_msgs_state_info reqMsgID) m)"
| "process ro m msgId0 seqNo0 (TL_new_session_created serverSalt) mayPassToHandler =
     ack_odd msgId0 seqNo0
       (Inr (SaveSessionLogged (m\<lparr>session := (session m)\<lparr>ServerSalt := serverSalt\<rparr>\<rparr>)))"
| "process ro m msgId0 seqNo0 (TL_ping pingID) mayPassToHandler =
     ack_odd msgId0 seqNo0 (Inr (enqueue_new (newPacket (TL_pong msgId0 pingID) None) m))"
| "process ro m msgId0 seqNo0 (TL_pong a b) mayPassToHandler =
     ack_odd msgId0 seqNo0 (Inr m)"
| "process ro m msgId0 seqNo0 (TL_msgs_ack msgIds) mayPassToHandler =
     ack_odd msgId0 seqNo0 (Inr (ack_loop msgIds m))"
| "process ro m msgId0 seqNo0 (TL_rpc_result reqMsgId ob) mayPassToHandler =
     ack_odd msgId0 seqNo0
       (case process ro m msgId0 0 ob False of
          Inl f \<Rightarrow> Inl f
        | Inr m1 \<Rightarrow> clearPacketData reqMsgId ob m1)"
| "process ro m msgId0 seqNo0 TL_nil mayPassToHandler =
     ack_odd msgId0 seqNo0 (Inr (pass_to_handler TL_nil mayPassToHandler m))"
| "process ro m msgId0 seqNo0 (TL_object tag payload) mayPassToHandler =
     ack_odd msgId0 seqNo0 (Inr (pass_to_handler (TL_object tag payload) mayPassToHandler m))"
| "process_items ro m [] = Inr m"
| "process_items ro m (TL_MT_message vMsgID vSeqNo vBytes vData # vs) =
     (case process ro m vMsgID vSeqNo vData True of
        Inl f \<Rightarrow> Inl f
      | Inr m1 \<Rightarrow> process_items ro m1 vs)"

subsection \<open>The ping worker\<close>

text \<open>
  \<^verbatim>\<open>pingRoutine\<close> repeats a \<^verbatim>\<open>select\<close> with two cases: a token arrives on
  \<^verbatim>\<open>routinesStop\<close>, or the timer \<^verbatim>\<open>time.After(60 * time.Second)\<close> fires. The routine is run
  on the sequence of cases that fire. The result tells whether the routine returned;
  it is still waiting when the sequence is used up, and a token can only be taken from
  a channel that holds one.
\<close>

datatype wakeup = StopToken | Timer60s

definition pingRoutine_done :: "'w MTProto \<Rightarrow> 'w MTProto" where
  "pingRoutine_done m = (logf LvDebug ''pingRoutine done'' m)\<lparr>routinesWG := routinesWG m - 1\<rparr>"

fun pingRoutine :: "wakeup list \<Rightarrow> 'w MTProto \<Rightarrow> 'w MTProto \<times> bool" where
  "pingRoutine [] m = (m, False)"
| "pingRoutine (StopToken # ws) m =
     (if routinesStop m = 0 then (m, False)
      else (pingRoutine_done (m\<lparr>routinesStop := routinesStop m - 1\<rparr>), True))"
| "pingRoutine (Timer60s # ws) m =
     pingRoutine ws (enqueue_new (newPacket (TL_ping 0xCADACADA) None) m)"

subsection \<open>Reconnection\<close>

text \<open>
  What reconnection takes from outside this file: the result of closing the TCP
  connection, the test \<^verbatim>\<open>IsClosedConnErr\<close> (its file is not part of the sources), what
  the four workers do to the state until \<^verbatim>\<open>routinesWG.Wait\<close> returns, and \<^verbatim>\<open>Connect\<close>,
  which talks to the network.
\<close>

record 'w net_env =
  conn_Close :: "'w MTProto \<Rightarrow> error option"
  IsClosedConnErr :: "error \<Rightarrow> bool"
  routinesWG_Wait :: "'w MTProto \<Rightarrow> 'w MTProto"
  Connect :: "'w MTProto \<Rightarrow> error option \<times> 'w MTProto"

text \<open>The first part of \<^verbatim>\<open>reconnectToDc\<close>, up to the draining of the stop tokens.\<close>

definition stopRoutines :: "'w net_env \<Rightarrow> 'w MTProto \<Rightarrow> error option \<times> 'w MTProto" where
  "stopRoutines env m =
     (let m1 = logf LvInfo ''reconnecting: DC %d -> %d'' m;
          m2 = logf LvDebug ''stopping routines...'' m1;
          m3 = m2\<lparr>routinesStop := routinesStop m2 + ROUTINES_COUNT\<rparr>;
          closeErr = (if conn m3 \<noteq> None then conn_Close env m3 else None)
      in case closeErr of
           Some e \<Rightarrow>
             if \<not> IsClosedConnErr env e then (Some e, m3)
             else (None, (logf LvDebug ''done stopping routines...''
                     (routinesWG_Wait env (logf LvDebug ''waiting for routines...'' m3)))
                       \<lparr>routinesStop := 0\<rparr>)
         | None \<Rightarrow>
             (None, (logf LvDebug ''done stopping routines...''
                (routinesWG_Wait env (logf LvDebug ''waiting for routines...'' m3)))
                  \<lparr>routinesStop := 0\<rparr>))"

definition reconnectToDc :: "'w net_env \<Rightarrow> range_order \<Rightarrow> 'w MTProto \<Rightarrow> int32
    \<Rightarrow> error option \<times> 'w MTProto" where
  "reconnectToDc env ro m newDcID =
     (case stopRoutines env m of
        (Some e, m1) \<Rightarrow> (Some e, m1)
      | (None, m1) \<Rightarrow>
          let pendingIDs = ro (msgsByID m1);
              m2 = logf LvDebug ''found %d pending packet(s)'' m1;
              m3 = (if newDcID \<noteq> DcID (session m2) then m2\<lparr>encryptionReady := False\<rparr> else m2)
          in case DCAddr (dcOptions m3) newDcID False of
               None \<Rightarrow> (Some (Errorf ''wrong DC number: %d'' [sint newDcID]), m3)
             | Some newDcAddr \<Rightarrow>
                 let m4 = m3\<lparr>session := (session m3)\<lparr>DcID := newDcID, Addr := newDcAddr\<rparr>\<rparr>
                 in case Connect env m4 of
                      (Some e, m5) \<Rightarrow> (Some e, m5)
                    | (None, m5) \<Rightarrow>
                        let m6 = (if pendingIDs \<noteq> []
                                  then pushPendingPacketsUnlocked
                                         (List.map_filter (msgsByID m5) pendingIDs) m5
                                  else m5)
                        in (None, logf LvInfo ''reconnected to DC %d (%s)'' m6))"

definition Reconnect :: "'w net_env \<Rightarrow> range_order \<Rightarrow> 'w MTProto \<Rightarrow> error option \<times> 'w MTProto" where
  "Reconnect env ro m = reconnectToDc env ro m (DcID (session m))"

text \<open>
  The retry loop of \<^verbatim>\<open>reconnectLogged\<close> runs until a reconnect succeeds, which may be
  never: it is bounded by fuel, and \<open>None\<close> means that the fuel ran out. The pause of
  five seconds between two attempts is not modelled.
\<close>

fun reconnect_loop :: "'w net_env \<Rightarrow> range_order \<Rightarrow> nat \<Rightarrow> 'w MTProto \<Rightarrow> 'w MTProto option" where
  "reconnect_loop env ro 0 m = None"
| "reconnect_loop env ro (Suc n) m =
     (case reconnectToDc env ro m (DcID (session m)) of
        (None, m1) \<Rightarrow> Some m1
      | (Some e, m1) \<Rightarrow>
          reconnect_loop env ro n
            (logf LvInfo ''retrying in 5 seconds'' (logf LvError ''failed to reconnect'' m1)))"

definition reconnectLogged :: "'w net_env \<Rightarrow> range_order \<Rightarrow> nat \<Rightarrow> 'w MTProto \<Rightarrow> 'w MTProto option" where
  "reconnectLogged env ro fuel m =
     (let m1 = logf LvInfo ''reconnecting...'' m
      in if reconnSemaphore m1
         then Some (logf LvInfo ''reconnection already in progress, aborting'' m1)
         else case reconnect_loop env ro fuel (m1\<lparr>reconnSemaphore := True\<rparr>) of
                None \<Rightarrow> None
              | Some m2 \<Rightarrow> Some (m2\<lparr>reconnSemaphore := False\<rparr>))"

section \<open>Reference definitions and example inputs\<close>

text \<open>The value of a byte string read as a big-endian unsigned number.\<close>

fun be_value :: "byte list \<Rightarrow> int" where
  "be_value [] = 0"
| "be_value (b # bs) = byte_int b * 256 ^ length bs + be_value bs"

text \<open>
  The persistence format that matches the calls of \<^verbatim>\<open>Save\<close> and \<^verbatim>\<open>Load\<close>: four
  fields in the order auth key, auth key hash, server salt, address, the salt as a plain
  little-endian i64 (eight bytes, no length prefix) and the other three in the string
  framing.
\<close>

definition session_bytes :: "SessionInfo \<Rightarrow> byte list" where
  "session_bytes sess =
     string_bytes_frame (AuthKey sess) @ string_bytes_frame (AuthKeyHash sess)
     @ le_bytes 8 (ServerSalt sess) @ string_bytes_frame (Addr sess)"

text \<open>
  A session record of the spec's data model: an authorization key of 256 bytes with its
  hash of 8 bytes, or both absent, and an endpoint address \<open>host:port\<close>. The bounds
  admit these and more (any key up to 256 bytes, any hash up to 8 bytes, an address up
  to 1024 bytes).
\<close>

definition session_record :: "SessionInfo \<Rightarrow> bool" where
  "session_record sess =
     (length (AuthKey sess) \<le> 256 \<and> length (AuthKeyHash sess) \<le> 8
      \<and> length (Addr sess) \<le> 1024)"

text \<open>
  The format in which all four fields are length-prefixed, the server salt too: its
  eight little-endian bytes in the string framing.
\<close>

definition all_framed_bytes :: "SessionInfo \<Rightarrow> byte list" where
  "all_framed_bytes sess =
     string_bytes_frame (AuthKey sess) @ string_bytes_frame (AuthKeyHash sess)
     @ string_bytes_frame (le_bytes 8 (ServerSalt sess)) @ string_bytes_frame (Addr sess)"

definition example_env :: codec_env where
  "example_env =
     \<lparr>CRC_vector = 0x1cb5c415, CRC_boolFalse = 0xbc799737, CRC_boolTrue = 0x997275b5,
      CRC_msg_container = 0x73f1f8dc, CRC_rpc_result = 0xf35c6d01,
      CRC_gzip_packed = 0x3072cfa1,
      ObjectGenerated = (\<lambda>object c m. Some (Inr (TL_object c [], m))),
      gunzip = Some\<rparr>"

definition failed_buf :: DecodeBuf where
  "failed_buf = \<lparr>buf = [21, 196, 181, 28, 1, 0, 0, 0], off = 0, sizeD = 8,
     err = Some (errors_New ''DecodeInt'')\<rparr>"

definition msb_buf :: DecodeBuf where
  "msb_buf = NewDecodeBuf [2, 0xFF, 0x01, 0]"

definition example_session :: SessionInfo where
  "example_session = \<lparr>DcID = 2, AuthKey = [1, 2, 3], AuthKeyHash = [9],
     ServerSalt = 0x0102030405060708, Addr = [49, 58, 50], sessionId = 77\<rparr>"

text \<open>A session with a key of 256 bytes, a hash of 8 bytes and the default endpoint.\<close>

definition full_session :: SessionInfo where
  "full_session = \<lparr>DcID = 2, AuthKey = replicate 256 7,
     AuthKeyHash = [1, 2, 3, 4, 5, 6, 7, 8], ServerSalt = 0x0102030405060708,
     Addr = [49, 52, 57, 46, 49, 53, 52, 46, 49, 54, 55, 46, 53, 48, 58, 52, 52, 51],
     sessionId = 77\<rparr>"

definition blank_session :: SessionInfo where
  "blank_session = \<lparr>DcID = 0, AuthKey = [], AuthKeyHash = [], ServerSalt = 0, Addr = [],
     sessionId = 5\<rparr>"

definition example_fs :: filesys where
  "example_fs = \<lparr>files = Map.empty, denied = (\<lambda>p. False), quota = 1000000\<rparr>"

text \<open>
  A client with two pending packets: message 7 waits for a response on channel 0,
  message 8 is fire-and-forget. \<open>example_order\<close> visits key 8 before key 7.
\<close>

definition example_order :: range_order where
  "example_order t = filter (\<lambda>i. t i \<noteq> None) [8, 7]"

definition example_client :: "filesys MTProto" where
  "example_client =
     \<lparr>sessionStore = SessFileStore ''tg.session'', world = example_fs,
      session = example_session, conn = Some 0, log = [], sendQueue = [],
      routinesStop = 0, routinesWG = 4, reconnSemaphore = False, encryptionReady = True,
      msgsByID = [7 \<mapsto> 0, 8 \<mapsto> 1], handleEvent = True, events = [],
      dcOptions = [\<lparr>ID = 2, Ipv6 = False, IpAddress = [49, 46, 50], Port = 443\<rparr>,
                   \<lparr>ID = 4, Ipv6 = True, IpAddress = [58, 58, 49], Port = 443\<rparr>],
      packets = [\<lparr>msgID = 7, seqNo = 1, msg = TL_object 1 [], resp = Some 0, needAck = True\<rparr>,
                 \<lparr>msgID = 8, seqNo = 3, msg = TL_ping 5, resp = None, needAck = True\<rparr>],
      chans = [\<lparr>sent = [], closed = False\<rparr>]\<rparr>"

text \<open>
  The dispatcher in the spec's words. A message with an odd sequence number is owed one
  \<open>msgs_ack\<close> carrying its id, after everything nested in it: the items of a container
  count with their own id and sequence number, the object inside an \<open>rpc_result\<close> counts
  with sequence number 0. \<open>replies\<close> lists the packets the dispatcher creates for a
  message: the pong for a ping and the acknowledgements, in that order.
\<close>

definition ack_packet :: "int64 \<Rightarrow> packetToSend" where
  "ack_packet i = newPacket (TL_msgs_ack [i]) None"

definition own_ack :: "int64 \<Rightarrow> int32 \<Rightarrow> int64 list" where
  "own_ack i s = (if odd (sint s) then [i] else [])"

fun expected_acks :: "int64 \<Rightarrow> int32 \<Rightarrow> TL \<Rightarrow> int64 list"
and expected_acks_items :: "TL_MT_message list \<Rightarrow> int64 list" where
  "expected_acks i s (TL_msg_container items) = expected_acks_items items @ own_ack i s"
| "expected_acks i s (TL_rpc_result q ob) = expected_acks i 0 ob @ own_ack i s"
| "expected_acks i s d = own_ack i s"
| "expected_acks_items [] = []"
| "expected_acks_items (TL_MT_message a b c d # vs) = expected_acks a b d @ expected_acks_items vs"

fun replies :: "int64 \<Rightarrow> int32 \<Rightarrow> TL \<Rightarrow> packetToSend list"
and replies_items :: "TL_MT_message list \<Rightarrow> packetToSend list" where
  "replies i s (TL_msg_container items) = replies_items items @ map ack_packet (own_ack i s)"
| "replies i s (TL_rpc_result q ob) = replies i 0 ob @ map ack_packet (own_ack i s)"
| "replies i s (TL_ping p) = newPacket (TL_pong i p) None # map ack_packet (own_ack i s)"
| "replies i s d = map ack_packet (own_ack i s)"
| "replies_items [] = []"
| "replies_items (TL_MT_message a b c d # vs) = replies a b d @ replies_items vs"

fun is_msgs_ack :: "packetToSend \<Rightarrow> bool" where
  "is_msgs_ack p = (case msg p of TL_msgs_ack ids \<Rightarrow> True | _ \<Rightarrow> False)"

text \<open>
  \<open>wf_tab n m\<close>: every pointer in the pending table points to one of the first \<open>n\<close>
  packets. \<open>grows n m m' new\<close>: from \<open>m\<close> to \<open>m'\<close> the table lost entries only, the
  packets from index \<open>n\<close> on were left alone and \<open>new\<close> was added behind them, and each
  new packet was put on the queue once, in the order of creation.
\<close>

definition wf_tab :: "nat \<Rightarrow> 'w MTProto \<Rightarrow> bool" where
  "wf_tab n m = (n \<le> length (packets m) \<and> (\<forall>i a. msgsByID m i = Some a \<longrightarrow> a < n))"

definition grows :: "nat \<Rightarrow> 'w MTProto \<Rightarrow> 'w MTProto \<Rightarrow> packetToSend list \<Rightarrow> bool" where
  "grows n m m' new =
     ((\<forall>i a. msgsByID m' i = Some a \<longrightarrow> msgsByID m i = Some a)
      \<and> drop n (packets m') = drop n (packets m) @ new
      \<and> length (packets m') = length (packets m) + length new
      \<and> (\<exists>q. sendQueue m' = sendQueue m @ q
            \<and> filter (\<lambda>a. n \<le> a) q = [length (packets m) ..< length (packets m')]))"

text \<open>
  The container of the spec's second scenario: a ping with id 10 and sequence number 1,
  and the result of request 7 with id 12 and sequence number 3.
\<close>

definition example_container :: TL where
  "example_container =
     TL_msg_container [TL_MT_message 10 1 8 (TL_ping 1),
                       TL_MT_message 12 3 16 (TL_rpc_result 7 (TL_object 9 []))]"

text \<open>
  A network on which closing succeeds, the workers stop at once and \<^verbatim>\<open>Connect\<close> succeeds
  (it sets the encryption-ready flag and starts four workers).
\<close>

definition example_net :: "filesys net_env" where
  "example_net =
     \<lparr>conn_Close = (\<lambda>m. None), IsClosedConnErr = (\<lambda>e. False),
      routinesWG_Wait = (\<lambda>m. m\<lparr>routinesWG := 0\<rparr>),
      Connect = (\<lambda>m. (None, m\<lparr>encryptionReady := True, routinesWG := 4\<rparr>))\<rparr>"

text \<open>The ping packet of \<^verbatim>\<open>pingRoutine\<close>, and the state after \<open>k\<close> of them were queued.\<close>

definition ping_packet :: packetToSend where
  "ping_packet = newPacket (TL_ping 0xCADACADA) None"

definition with_pings :: "nat \<Rightarrow> 'w MTProto \<Rightarrow> 'w MTProto" where
  "with_pings k m =
     m\<lparr>packets := packets m @ replicate k ping_packet,
       sendQueue := sendQueue m @ [length (packets m) ..< length (packets m) + k]\<rparr>"

section \<open>The sticky error of the decoder\<close>

lemma sticky_UInt: "err m \<noteq> None \<Longrightarrow> DecodeBuf_UInt m = (0, m)"
  by (simp add: DecodeBuf_UInt_def)

lemma sticky_StringBytes0: "err m \<noteq> None \<Longrightarrow> DecodeBuf_StringBytes m = ([], m)"
  by (simp add: DecodeBuf_StringBytes_def)

lemma sticky_vector_of: "err m \<noteq> None \<Longrightarrow> vector_of env who rd m = ([], m)"
  by (simp add: vector_of_def sticky_UInt)

lemma sticky_Long: "err m \<noteq> None \<Longrightarrow> DecodeBuf_Long m = (0, m)"
  by (simp add: DecodeBuf_Long_def)

lemma sticky_Int: "err m \<noteq> None \<Longrightarrow> DecodeBuf_Int m = (0, m)"
  by (simp add: DecodeBuf_Int_def)

lemma sticky_Double: "err m \<noteq> None \<Longrightarrow> DecodeBuf_Double m = (0, m)"
  by (simp add: DecodeBuf_Double_def)

lemma sticky_Bytes: "err m \<noteq> None \<Longrightarrow> DecodeBuf_Bytes m n = Inr ([], m)"
  by (simp add: DecodeBuf_Bytes_def)

lemma sticky_String: "err m \<noteq> None \<Longrightarrow> DecodeBuf_String m = ([], m)"
  by (simp add: DecodeBuf_String_def sticky_StringBytes0)

lemma sticky_BigInt: "err m \<noteq> None \<Longrightarrow> DecodeBuf_BigInt m = (None, m)"
  by (simp add: DecodeBuf_BigInt_def sticky_StringBytes0)

lemma sticky_Bool: "err m \<noteq> None \<Longrightarrow> DecodeBuf_Bool env m = (False, m)"
  by (simp add: DecodeBuf_Bool_def sticky_UInt)

lemma sticky_Vector: "err m \<noteq> None \<Longrightarrow> DecodeBuf_Vector env k m = Some (Inr ([], m))"
  by (simp add: DecodeBuf_Vector_def sticky_UInt)

lemma sticky_Object: "err m \<noteq> None \<Longrightarrow> DecodeBuf_Object env (Suc k) m = Some (Inr (TL_nil, m))"
  by (simp add: sticky_UInt)

text \<open>
  C8. Once the error of a decode buffer is set, every read returns the zero value of its
  result type (0, the nil slice, the empty string, the nil pointer, false, the nil
  object) and leaves the buffer as it was: offset, error and the other fields.
  \<^verbatim>\<open>Object\<close> does so for every amount of fuel that lets it start.
\<close>

theorem C8_sticky_error:
  "err m \<noteq> None \<Longrightarrow>
     DecodeBuf_Long m = (0, m) \<and>
     DecodeBuf_Int m = (0, m) \<and>
     DecodeBuf_UInt m = (0, m) \<and>
     DecodeBuf_Double m = (0, m) \<and>
     DecodeBuf_Bytes m n = Inr ([], m) \<and>
     DecodeBuf_StringBytes m = ([], m) \<and>
     DecodeBuf_String m = ([], m) \<and>
     DecodeBuf_BigInt m = (None, m) \<and>
     DecodeBuf_Bool env m = (False, m) \<and>
     DecodeBuf_VectorInt env m = ([], m) \<and>
     DecodeBuf_VectorLong env m = ([], m) \<and>
     DecodeBuf_VectorString env m = ([], m) \<and>
     DecodeBuf_Vector env k m = Some (Inr ([], m)) \<and>
     DecodeBuf_Object env (Suc k) m = Some (Inr (TL_nil, m))"
  by (simp only: sticky_Long sticky_Int sticky_UInt sticky_Double sticky_Bytes
      sticky_StringBytes0 sticky_String sticky_BigInt sticky_Bool sticky_vector_of
      DecodeBuf_VectorInt_def DecodeBuf_VectorLong_def DecodeBuf_VectorString_def
      sticky_Vector sticky_Object simp_thms)

text \<open>A buffer whose error is set, holding a well-formed vector of one element.\<close>

theorem C8_sticky_error_witness:
  "err failed_buf \<noteq> None \<and>
   DecodeBuf_Long failed_buf = (0, failed_buf) \<and>
   DecodeBuf_Int failed_buf = (0, failed_buf) \<and>
   DecodeBuf_UInt failed_buf = (0, failed_buf) \<and>
   DecodeBuf_Double failed_buf = (0, failed_buf) \<and>
   DecodeBuf_Bytes failed_buf 4 = Inr ([], failed_buf) \<and>
   DecodeBuf_StringBytes failed_buf = ([], failed_buf) \<and>
   DecodeBuf_String failed_buf = ([], failed_buf) \<and>
   DecodeBuf_BigInt failed_buf = (None, failed_buf) \<and>
   DecodeBuf_Bool example_env failed_buf = (False, failed_buf) \<and>
   DecodeBuf_VectorInt example_env failed_buf = ([], failed_buf) \<and>
   DecodeBuf_VectorLong example_env failed_buf = ([], failed_buf) \<and>
   DecodeBuf_VectorString example_env failed_buf = ([], failed_buf) \<and>
   DecodeBuf_Vector example_env 3 failed_buf = Some (Inr ([], failed_buf)) \<and>
   DecodeBuf_Object example_env (Suc 3) failed_buf = Some (Inr (TL_nil, failed_buf))"
proof -
  have h: "err failed_buf \<noteq> None" by (simp add: failed_buf_def)
  show ?thesis using h C8_sticky_error[OF h, of 4 example_env 3] by simp
qed

section \<open>Big integers\<close>

lemma foldl_be: "foldl (\<lambda>acc b. acc * 256 + byte_int b) a y = a * 256 ^ length y + be_value y"
  by (induction y arbitrary: a) (simp_all add: algebra_simps)

lemma big_SetBytes_be_value: "big_SetBytes y = be_value y"
  by (simp add: big_SetBytes_def foldl_be)

lemma be_value_nonneg: "0 \<le> be_value y"
  by (induction y) (simp_all add: byte_int_def)

text \<open>
  C10. \<^verbatim>\<open>BigInt\<close> reads a byte string with \<^verbatim>\<open>StringBytes\<close>. Either the error of the
  buffer is set afterwards and the result is nil, or the result is the big-endian
  unsigned value of the bytes read, which is not negative: the zero byte put in front
  does not change the value.
\<close>

theorem C10_BigInt_nonneg:
  "(err (snd (DecodeBuf_StringBytes m)) \<noteq> None \<and>
      DecodeBuf_BigInt m = (None, snd (DecodeBuf_StringBytes m))) \<or>
   (err (snd (DecodeBuf_StringBytes m)) = None \<and>
      DecodeBuf_BigInt m =
        (Some (be_value (fst (DecodeBuf_StringBytes m))), snd (DecodeBuf_StringBytes m)) \<and>
      0 \<le> be_value (fst (DecodeBuf_StringBytes m)))"
  by (cases "DecodeBuf_StringBytes m")
     (simp add: DecodeBuf_BigInt_def big_SetBytes_be_value be_value_nonneg byte_int_def)

text \<open>The two bytes \<open>FF 01\<close>, whose highest bit is set, give 65281.\<close>

theorem C10_BigInt_nonneg_witness:
  "DecodeBuf_StringBytes msb_buf = ([0xFF, 0x01], msb_buf\<lparr>off := 4\<rparr>) \<and>
   err (msb_buf\<lparr>off := 4\<rparr>) = None \<and>
   DecodeBuf_BigInt msb_buf = (Some 65281, msb_buf\<lparr>off := 4\<rparr>)"
proof -
  have s: "DecodeBuf_StringBytes msb_buf = ([0xFF, 0x01], msb_buf\<lparr>off := 4\<rparr>)"
    by (simp add: msb_buf_def NewDecodeBuf_def DecodeBuf_StringBytes_def byte_int_def
        slice_def Let_def)
  have e: "err (msb_buf\<lparr>off := 4\<rparr>) = None"
    by (simp add: msb_buf_def NewDecodeBuf_def)
  show ?thesis using C10_BigInt_nonneg[of msb_buf] by (simp add: s e byte_int_def)
qed


section \<open>The session file: saving and loading\<close>

lemma and3: "(x::int) AND 3 = x mod 4"
  using take_bit_eq_mask[of 2 x] by (simp add: take_bit_eq_mod mask_eq_exp_minus_1)

lemma pad_nat: "k < 4 \<Longrightarrow> (4 - int k) AND 3 = int ((4 - k) mod 4)"
proof -
  assume "k < 4"
  then have a: "4 - int k = int (4 - k)" by simp
  have b: "int (4 - k) mod 4 = int ((4 - k) mod 4)" by (simp only: zmod_int of_nat_numeral)
  show ?thesis by (simp only: and3 a b)
qed


lemma pad_short: "(4 - (int n + 1) mod 4) AND 3 = int ((4 - (n + 1) mod 4) mod 4)"
proof -
  have "int ((n + 1) mod 4) = (int n + 1) mod 4"
    by (simp only: zmod_int of_nat_numeral of_nat_add of_nat_1)
  then have e: "(int n + 1) mod 4 = int ((n + 1) mod 4)" by (rule sym)
  have l: "(n + 1) mod 4 < 4" by simp
  show ?thesis by (simp only: e pad_nat[OF l])
qed

lemma pad_long: "(4 - int n mod 4) AND 3 = int ((4 - n mod 4) mod 4)"
proof -
  have e: "int n mod 4 = int (n mod 4)" by (simp only: zmod_int of_nat_numeral)
  have l: "n mod 4 < 4" by simp
  show ?thesis by (simp only: e pad_nat[OF l])
qed

lemma frame_short: "length s < 254 \<Longrightarrow>
  string_bytes_frame s = of_nat (length s) # s @ replicate ((4 - (length s + 1) mod 4) mod 4) 0"
  by (simp add: string_bytes_frame_def Let_def)

lemma frame_long: "\<not> length s < 254 \<Longrightarrow>
  string_bytes_frame s = 254 # of_nat (length s) # of_nat (length s div 256) # of_nat (length s div 65536) # s @ replicate ((4 - length s mod 4) mod 4) 0"
  by (simp add: string_bytes_frame_def Let_def)

lemma byte_int_short: "n < 254 \<Longrightarrow> byte_int (of_nat n) = int n"
  by (simp add: byte_int_def unsigned_of_nat take_bit_nat_eq_self)


lemma StringBytes_short:
  assumes "length s < 254"
  shows "DecodeBuf_StringBytes \<lparr>buf = pre @ string_bytes_frame s @ post, off = int (length pre),
            sizeD = int (length pre + length (string_bytes_frame s) + length post), err = None\<rparr>
         = (s, \<lparr>buf = pre @ string_bytes_frame s @ post,
                off = int (length pre + length (string_bytes_frame s)),
                sizeD = int (length pre + length (string_bytes_frame s) + length post), err = None\<rparr>)"
  unfolding frame_short[OF assms]
  using assms
  apply (simp add: DecodeBuf_StringBytes_def Let_def nth_append byte_int_short pad_short slice_def nat_add_distrib)
  done


lemma size24: 
  assumes "x < 2^24" 
  shows "byte_int (of_nat x) OR push_bit 8 (byte_int (of_nat (x div 256)))
           OR push_bit 16 (byte_int (of_nat (x div 65536))) = int x"
proof -
  have a: "x div 256 = drop_bit 8 x" "x div 65536 = drop_bit 16 x"
    by (simp_all add: drop_bit_eq_div)
  have b: "take_bit 24 x = x" using assms by (simp add: take_bit_nat_eq_self)
  have c: "\<not> bit x n" if "24 \<le> n" for n
    using b that by (metis bit_take_bit_iff not_le)
  show ?thesis
    unfolding a byte_int_def
    apply (rule bit_eqI)
    using c
    apply (auto simp add: bit_simps)
    subgoal for n by (cases "16 \<le> n") auto
    done
qed

lemma byte_int_254: "byte_int 254 = 254"
  by (simp add: byte_int_def)

lemma StringBytes_long:
  assumes "\<not> length s < 254" and "length s < 2 ^ 24"
  shows "DecodeBuf_StringBytes \<lparr>buf = pre @ string_bytes_frame s @ post, off = int (length pre),
            sizeD = int (length pre + length (string_bytes_frame s) + length post), err = None\<rparr>
         = (s, \<lparr>buf = pre @ string_bytes_frame s @ post,
                off = int (length pre + length (string_bytes_frame s)),
                sizeD = int (length pre + length (string_bytes_frame s) + length post), err = None\<rparr>)"
  unfolding frame_long[OF assms(1)]
  using assms
  apply (simp add: DecodeBuf_StringBytes_def Let_def nth_append byte_int_254 size24 pad_long slice_def nat_add_distrib)
  done


lemma StringBytes_frame:
  assumes "length s < 2 ^ 24" and "b = pre @ string_bytes_frame s @ post"
    and "o1 = int (length pre)" and "sz = int (length b)"
  shows "DecodeBuf_StringBytes \<lparr>buf = b, off = o1, sizeD = sz, err = None\<rparr>
         = (s, \<lparr>buf = b, off = o1 + int (length (string_bytes_frame s)), sizeD = sz, err = None\<rparr>)"
proof (cases "length s < 254")
  case True
  show ?thesis using StringBytes_short[OF True, of pre post] assms(2-4) by (simp add: add.assoc)
next
  case False
  show ?thesis using StringBytes_long[OF False assms(1), of pre post] assms(2-4) by (simp add: add.assoc)
qed

lemma le_word_le_bytes: "(le_word (le_bytes n w) :: 'a::len word) = take_bit (8 * n) (w :: 'a word)"
  apply (induction n arbitrary: w)
   apply simp
  apply (simp)
  apply (rule bit_word_eqI)
  apply (auto simp add: bit_simps)
  done

lemma length_le_bytes: "length (le_bytes n w) = n"
  by (induction n arbitrary: w) simp_all

lemma le_word_le_bytes8: "le_word (le_bytes 8 (w :: 64 word)) = w"
  by (simp add: le_word_le_bytes take_bit_word_eq_self)

lemma Long_at:
  assumes "b = pre @ le_bytes 8 w @ post" and "o1 = int (length pre)" and "sz = int (length b)"
  shows "DecodeBuf_Long \<lparr>buf = b, off = o1, sizeD = sz, err = None\<rparr>
         = (w, \<lparr>buf = b, off = o1 + 8, sizeD = sz, err = None\<rparr>)"
proof -
  have "slice b o1 (o1 + 8) = le_bytes 8 w"
    using assms by (simp add: slice_def length_le_bytes)
  then have "LittleEndian_Uint64 (slice b o1 (o1 + 8)) = w"
    by (simp only: LittleEndian_Uint64_def) (simp only: take_all length_le_bytes le_word_le_bytes8 order_refl)
  then show ?thesis
    using assms by (simp add: DecodeBuf_Long_def length_le_bytes)
qed

lemma frame_length_ge: "length s \<le> length (string_bytes_frame s)"
  by (simp add: string_bytes_frame_def Let_def)

lemma frame_nonempty: "string_bytes_frame s \<noteq> []"
  by (simp add: string_bytes_frame_def Let_def)


lemma Save_bytes:
  "\<not> denied fs p \<Longrightarrow> length (session_bytes sess) \<le> quota fs \<Longrightarrow>
     SessFileStore_Save p sess fs = (None, fs\<lparr>files := (files fs)(p \<mapsto> session_bytes sess)\<rparr>)"
  by (simp add: SessFileStore_Save_def session_bytes_def NewEncodeBuf_def
      EncodeBuf_StringBytes_def EncodeBuf_String_def EncodeBuf_Long_def Let_def)

lemma session_bytes_nonempty: "session_bytes sess \<noteq> []"
  by (simp add: session_bytes_def frame_nonempty)

lemma Load_bytes:
  assumes "files fs p = Some (session_bytes sess)" and "\<not> denied fs p"
    and "length (session_bytes sess) \<le> 4096"
  shows "SessFileStore_Load p sess0 fs =
     (None, sess0\<lparr>AuthKey := AuthKey sess, AuthKeyHash := AuthKeyHash sess,
                  ServerSalt := ServerSalt sess, Addr := Addr sess\<rparr>)"
proof -
  define f1 where "f1 = string_bytes_frame (AuthKey sess)"
  define f2 where "f2 = string_bytes_frame (AuthKeyHash sess)"
  define f4 where "f4 = string_bytes_frame (Addr sess)"
  define z where "z = replicate (4096 - length (session_bytes sess)) (0 :: byte)"
  define b where "b = f1 @ f2 @ le_bytes 8 (ServerSalt sess) @ f4 @ z"
  have sb: "session_bytes sess = f1 @ f2 @ le_bytes 8 (ServerSalt sess) @ f4"
    by (simp add: session_bytes_def f1_def f2_def f4_def)
  have bb: "take 4096 (session_bytes sess)
              @ replicate (4096 - length (session_bytes sess)) 0 = b"
    using assms(3) by (simp add: b_def z_def sb)
  have bl: "int (min (length (session_bytes sess)) 4096)
              + int (4096 - length (session_bytes sess)) = int (length b)"
    using assms(3) by (simp add: b_def z_def sb)
  have l1: "length (AuthKey sess) \<le> length f1" and l2: "length (AuthKeyHash sess) \<le> length f2"
    and l4: "length (Addr sess) \<le> length f4"
    by (simp_all add: f1_def f2_def f4_def frame_length_ge)
  have tot: "length f1 + length f2 + length f4 \<le> 4096"
    using assms(3) by (simp add: sb)
  have s1: "length (AuthKey sess) < 2 ^ 24" and s2: "length (AuthKeyHash sess) < 2 ^ 24"
    and s4: "length (Addr sess) < 2 ^ 24"
    using l1 l2 l4 tot by simp_all
  let ?sz = "int (length b)"
  have d1: "DecodeBuf_StringBytes \<lparr>buf = b, off = 0, sizeD = ?sz, err = None\<rparr>
      = (AuthKey sess, \<lparr>buf = b, off = int (length f1), sizeD = ?sz, err = None\<rparr>)"
    using StringBytes_frame[OF s1, of b "[]" "f2 @ le_bytes 8 (ServerSalt sess) @ f4 @ z" 0 ?sz]
    by (simp add: b_def f1_def)
  have d2: "DecodeBuf_StringBytes \<lparr>buf = b, off = int (length f1), sizeD = ?sz, err = None\<rparr>
      = (AuthKeyHash sess, \<lparr>buf = b, off = int (length f1) + int (length f2), sizeD = ?sz, err = None\<rparr>)"
    using StringBytes_frame[OF s2, of b f1 "le_bytes 8 (ServerSalt sess) @ f4 @ z" "int (length f1)" ?sz]
    by (simp add: b_def f2_def)
  have d3: "DecodeBuf_Long \<lparr>buf = b, off = int (length f1) + int (length f2), sizeD = ?sz, err = None\<rparr>
      = (ServerSalt sess, \<lparr>buf = b, off = int (length f1) + int (length f2) + 8, sizeD = ?sz, err = None\<rparr>)"
    using Long_at[of b "f1 @ f2" "ServerSalt sess" "f4 @ z" "int (length f1) + int (length f2)" ?sz]
    by (simp add: b_def)
  have d4: "DecodeBuf_StringBytes \<lparr>buf = b, off = int (length f1) + int (length f2) + 8, sizeD = ?sz, err = None\<rparr>
      = (Addr sess, \<lparr>buf = b, off = int (length f1) + int (length f2) + 8 + int (length f4), sizeD = ?sz, err = None\<rparr>)"
    using StringBytes_frame[OF s4, of b "f1 @ f2 @ le_bytes 8 (ServerSalt sess)" z
        "int (length f1) + int (length f2) + 8" ?sz]
    by (simp add: b_def f4_def length_le_bytes)
  show ?thesis
    using assms(1,2) session_bytes_nonempty[of sess]
    by (simp add: SessFileStore_Load_def bb bl NewDecodeBuf_def d1 d2 d3 DecodeBuf_String_def d4)
qed



lemma pad_le3: "(4 - (n::nat) mod 4) mod 4 \<le> 3"
proof -
  have "(4 - n mod 4) mod 4 < 4" by (rule mod_less_divisor) simp
  then show ?thesis by simp
qed

lemma frame_length_le: "length (string_bytes_frame s) \<le> length s + 7"
proof (cases "length s < 254")
  case True
  show ?thesis
    using pad_le3[of "length s + 1"] by (simp add: frame_short[OF True])
next
  case False
  show ?thesis
    using pad_le3[of "length s"] by (simp add: frame_long[OF False])
qed

lemma session_record_fits:
  assumes "session_record sess"
  shows "length (session_bytes sess) \<le> 4096"
proof -
  have "length (string_bytes_frame (AuthKey sess)) \<le> 256 + 7"
    and "length (string_bytes_frame (AuthKeyHash sess)) \<le> 8 + 7"
    and "length (string_bytes_frame (Addr sess)) \<le> 1024 + 7"
    using assms frame_length_le[of "AuthKey sess"] frame_length_le[of "AuthKeyHash sess"]
      frame_length_le[of "Addr sess"]
    by (simp_all add: session_record_def)
  then show ?thesis by (simp add: session_bytes_def length_le_bytes)
qed

text \<open>
  C6 (as amended). \<^verbatim>\<open>Save\<close> writes four fields in the order auth key, auth key hash,
  server salt, address: the auth key, the hash and the address in the string framing,
  the server salt as a plain little-endian i64 of eight bytes without a length prefix.
  For every session record, when the file can be created and written, \<^verbatim>\<open>Load\<close> after
  \<^verbatim>\<open>Save\<close> returns no error and restores the four fields; the data-center id and the
  session id of the loading session stay as they were.
\<close>

theorem C6_save_load_roundtrip:
  assumes "session_record sess" and "\<not> denied fs p"
    and "length (session_bytes sess) \<le> quota fs"
  shows "SessFileStore_Save p sess fs = (None, fs\<lparr>files := (files fs)(p \<mapsto> session_bytes sess)\<rparr>)
    \<and> SessFileStore_Load p sess0 (snd (SessFileStore_Save p sess fs)) =
        (None, sess0\<lparr>AuthKey := AuthKey sess, AuthKeyHash := AuthKeyHash sess,
                     ServerSalt := ServerSalt sess, Addr := Addr sess\<rparr>)"
proof -
  have s: "SessFileStore_Save p sess fs = (None, fs\<lparr>files := (files fs)(p \<mapsto> session_bytes sess)\<rparr>)"
    using assms(2,3) by (rule Save_bytes)
  have "SessFileStore_Load p sess0 (fs\<lparr>files := (files fs)(p \<mapsto> session_bytes sess)\<rparr>) =
        (None, sess0\<lparr>AuthKey := AuthKey sess, AuthKeyHash := AuthKeyHash sess,
                     ServerSalt := ServerSalt sess, Addr := Addr sess\<rparr>)"
    using assms(2) session_record_fits[OF assms(1)] by (intro Load_bytes) simp_all
  with s show ?thesis by simp
qed

lemma le_bytes_numeral:
  "le_bytes (numeral k) w = ucast w # le_bytes (pred_numeral k) (drop_bit 8 w)"
  by (simp add: numeral_eq_Suc)

lemma replicate_num: "replicate (numeral k) x = x # replicate (pred_numeral k) x"
  by (simp add: numeral_eq_Suc)

lemma example_bytes: "session_bytes example_session =
   [3, 1, 2, 3, 1, 9, 0, 0, 8, 7, 6, 5, 4, 3, 2, 1, 3, 49, 58, 50]"
  by (simp add: session_bytes_def example_session_def string_bytes_frame_def Let_def
      le_bytes_numeral replicate_num)

lemma example_all_framed: "all_framed_bytes example_session =
   [3, 1, 2, 3, 1, 9, 0, 0, 8, 8, 7, 6, 5, 4, 3, 2, 1, 0, 0, 0, 3, 49, 58, 50]"
  by (simp add: all_framed_bytes_def example_session_def string_bytes_frame_def Let_def
      le_bytes_numeral replicate_num)

text \<open>
  A session with a key of 256 bytes and a hash of 8 bytes: 300 bytes on disk, saved to
  an empty file system and loaded again.
\<close>

theorem C6_save_load_roundtrip_witness:
  "session_record full_session
   \<and> \<not> denied example_fs ''tg.session''
   \<and> length (session_bytes full_session) \<le> quota example_fs
   \<and> length (session_bytes full_session) = 300
   \<and> SessFileStore_Save ''tg.session'' full_session example_fs =
       (None, example_fs\<lparr>files := (files example_fs)(''tg.session'' \<mapsto>
                                          session_bytes full_session)\<rparr>)
   \<and> SessFileStore_Load ''tg.session'' blank_session
         (snd (SessFileStore_Save ''tg.session'' full_session example_fs)) =
       (None, \<lparr>DcID = 0, AuthKey = replicate 256 7, AuthKeyHash = [1, 2, 3, 4, 5, 6, 7, 8],
          ServerSalt = 0x0102030405060708,
          Addr = [49, 52, 57, 46, 49, 53, 52, 46, 49, 54, 55, 46, 53, 48, 58, 52, 52, 51],
          sessionId = 5\<rparr>)"
proof -
  have h1: "session_record full_session"
    by (simp add: session_record_def full_session_def)
  have h2: "\<not> denied example_fs ''tg.session''" by (simp add: example_fs_def)
  have len: "length (session_bytes full_session) = 300"
    by (simp add: session_bytes_def full_session_def string_bytes_frame_def Let_def
        length_le_bytes)
  have h3: "length (session_bytes full_session) \<le> quota example_fs"
    by (simp add: len example_fs_def)
  note r = C6_save_load_roundtrip[OF h1 h2 h3, of blank_session]
  have e: "blank_session\<lparr>AuthKey := AuthKey full_session,
       AuthKeyHash := AuthKeyHash full_session, ServerSalt := ServerSalt full_session,
       Addr := Addr full_session\<rparr> = \<lparr>DcID = 0, AuthKey = replicate 256 7,
          AuthKeyHash = [1, 2, 3, 4, 5, 6, 7, 8], ServerSalt = 0x0102030405060708,
          Addr = [49, 52, 57, 46, 49, 53, 52, 46, 49, 54, 55, 46, 53, 48, 58, 52, 52, 51],
          sessionId = 5\<rparr>"
    by (simp add: blank_session_def full_session_def)
  show ?thesis
    using h1 h2 h3 len r[THEN conjunct1] r[THEN conjunct2]
    by (simp only: e simp_thms)
qed

text \<open>\<^verbatim>\<open>Load\<close> on a file in which the server salt is length-prefixed as well.\<close>

lemma Load_all_framed:
  "SessFileStore_Load ''tg.session'' blank_session
     (example_fs\<lparr>files := [''tg.session'' \<mapsto>
        [3, 1, 2, 3, 1, 9, 0, 0, 8, 8, 7, 6, 5, 4, 3, 2, 1, 0, 0, 0, 3, 49, 58, 50]]\<rparr>) =
   (None, \<lparr>DcID = 0, AuthKey = [1, 2, 3], AuthKeyHash = [9],
            ServerSalt = 0x0203040506070808, Addr = [0], sessionId = 5\<rparr>)"
  by (simp add: SessFileStore_Load_def example_fs_def blank_session_def NewDecodeBuf_def
      DecodeBuf_StringBytes_def DecodeBuf_String_def DecodeBuf_Long_def
      LittleEndian_Uint64_def byte_int_def slice_def Let_def nth_append)

text \<open>
  C6 as stated, four length-prefixed fields, fails for the server salt. \<^verbatim>\<open>Save\<close> writes
  20 bytes for the example session, the salt as the eight bytes \<open>08 07 .. 01\<close>; with all
  four fields length-prefixed the file would have 24 bytes. \<^verbatim>\<open>Load\<close> reads the salt
  with \<^verbatim>\<open>d.Long()\<close>: from the 24-byte file it returns another salt and another address.
\<close>

theorem C6_salt_not_framed_counterexample:
  "files (snd (SessFileStore_Save ''tg.session'' example_session example_fs)) ''tg.session''
     = Some [3, 1, 2, 3, 1, 9, 0, 0, 8, 7, 6, 5, 4, 3, 2, 1, 3, 49, 58, 50]
   \<and> all_framed_bytes example_session
     = [3, 1, 2, 3, 1, 9, 0, 0, 8, 8, 7, 6, 5, 4, 3, 2, 1, 0, 0, 0, 3, 49, 58, 50]
   \<and> SessFileStore_Load ''tg.session'' blank_session
         (example_fs\<lparr>files := [''tg.session'' \<mapsto> all_framed_bytes example_session]\<rparr>)
     = (None, \<lparr>DcID = 0, AuthKey = [1, 2, 3], AuthKeyHash = [9],
               ServerSalt = 0x0203040506070808, Addr = [0], sessionId = 5\<rparr>)
   \<and> ServerSalt example_session = 0x0102030405060708
   \<and> Addr example_session = [49, 58, 50]"
proof -
  have "SessFileStore_Save ''tg.session'' example_session example_fs =
      (None, example_fs\<lparr>files := (files example_fs)(''tg.session'' \<mapsto>
                                         session_bytes example_session)\<rparr>)"
    by (rule Save_bytes) (simp_all add: example_bytes example_fs_def)
  then have a: "files (snd (SessFileStore_Save ''tg.session'' example_session example_fs))
      ''tg.session'' = Some [3, 1, 2, 3, 1, 9, 0, 0, 8, 7, 6, 5, 4, 3, 2, 1, 3, 49, 58, 50]"
    by (simp add: example_bytes)
  have b: "ServerSalt example_session = 0x0102030405060708" "Addr example_session = [49, 58, 50]"
    by (simp_all add: example_session_def)
  show ?thesis
    using a b by (simp only: example_all_framed Load_all_framed simp_thms)
qed


section \<open>The dispatcher\<close>

text \<open>
  C3. Completing a pending packet. If the message id is not in the table, nothing
  changes. If the packet is there and its response slot is already nil, a warning is
  logged, the response is dropped and the entry is removed. If the slot holds an open
  channel, exactly one value is sent on it, the channel is closed, the slot becomes nil
  and the entry is removed; so whenever the same packet is found in the table again,
  under any key, completing it writes to no channel. (A channel that somebody closed
  already makes the send panic.)
\<close>

theorem C3_clearPacketData_once:
  "(msgsByID m i = None \<longrightarrow> clearPacketData i r m = Inr m)
   \<and> (msgsByID m i = Some a \<and> resp (packets m ! a) = None \<longrightarrow>
        clearPacketData i r m =
          Inr (m\<lparr>log := log m @ [(LvWarn, ''second response to message #%d %#v'')],
                 msgsByID := (msgsByID m)(i := None)\<rparr>))
   \<and> (msgsByID m i = Some a \<and> resp (packets m ! a) = Some c \<and> closed (chans m ! c) \<longrightarrow>
        clearPacketData i r m = Inl PanicSendOnClosedChannel)
   \<and> (msgsByID m i = Some a \<and> a < length (packets m) \<and> resp (packets m ! a) = Some c
        \<and> c < length (chans m) \<and> \<not> closed (chans m ! c) \<longrightarrow>
        (\<exists>m'. clearPacketData i r m = Inr m'
           \<and> sent (chans m' ! c) = sent (chans m ! c) @ [r] \<and> closed (chans m' ! c)
           \<and> length (chans m') = length (chans m)
           \<and> (\<forall>c'. c' \<noteq> c \<longrightarrow> chans m' ! c' = chans m ! c')
           \<and> resp (packets m' ! a) = None
           \<and> msgsByID m' = (msgsByID m)(i := None)
           \<and> log m' = log m
           \<and> (\<forall>t i2 r2. t i2 = Some a \<longrightarrow>
                 (\<exists>m''. clearPacketData i2 r2 (m'\<lparr>msgsByID := t\<rparr>) = Inr m''
                    \<and> chans m'' = chans m' \<and> packets m'' = packets m'
                    \<and> msgsByID m'' = t(i2 := None)))))"
  by (auto simp add: clearPacketData_def logf_def)



lemma ack_loop_fields:
  "chans (ack_loop ids m) = chans m \<and> session (ack_loop ids m) = session m
   \<and> sendQueue (ack_loop ids m) = sendQueue m \<and> log (ack_loop ids m) = log m
   \<and> world (ack_loop ids m) = world m \<and> events (ack_loop ids m) = events m
   \<and> length (packets (ack_loop ids m)) = length (packets m)"
  by (induction ids arbitrary: m) (simp_all add: Let_def split: option.splits)

lemma nth_update_field:
  "resp ((ps[p := (ps ! p)\<lparr>needAck := False\<rparr>]) ! a) = resp (ps ! a)"
  by (cases "p < length ps") (simp_all add: nth_list_update list_update_beyond not_less)

lemma nth_update_needAck:
  "a < length ps \<Longrightarrow>
   ps[p := (ps ! p)\<lparr>needAck := False\<rparr>] ! a =
     (if a = p then (ps ! a)\<lparr>needAck := False\<rparr> else ps ! a)"
  by (simp add: nth_list_update)

lemma ack_loop_resp: "resp (packets (ack_loop ids m) ! a) = resp (packets m ! a)"
  by (induction ids arbitrary: m) (simp_all add: Let_def nth_update_field split: option.splits)

lemma ack_loop_table:
  "msgsByID (ack_loop ids m) i =
     (if i \<in> set ids \<and> (\<exists>a. msgsByID m i = Some a \<and> resp (packets m ! a) = None)
      then None else msgsByID m i)"
proof (induction ids arbitrary: m)
  case Nil
  show ?case by simp
next
  case (Cons j ids)
  show ?case
  proof (cases "msgsByID m j")
    case None
    then show ?thesis using Cons[of m] by auto
  next
    case (Some p)
    then show ?thesis
      by (auto simp add: Cons Let_def nth_update_field)
  qed
qed

lemma ack_loop_packets:
  "a < length (packets m) \<Longrightarrow>
   packets (ack_loop ids m) ! a =
     (if \<exists>i\<in>set ids. msgsByID m i = Some a then (packets m ! a)\<lparr>needAck := False\<rparr>
      else packets m ! a)"
proof (induction ids arbitrary: m)
  case Nil
  show ?case by simp
next
  case (Cons j ids)
  show ?case
  proof (cases "msgsByID m j")
    case None
    then show ?thesis using Cons.IH[of m] Cons.prems by auto
  next
    case (Some p)
    then show ?thesis
      using Cons.prems
      by (auto simp add: Cons.IH Let_def nth_update_needAck)
  qed
qed


text \<open>Message 7 completed twice, message 8 with a nil slot, message 9 unknown.\<close>

theorem C3_clearPacketData_once_witness:
  "(\<exists>m'. clearPacketData 7 (TL_object 2 []) example_client = Inr m'
      \<and> sent (chans m' ! 0) = [TL_object 2 []] \<and> closed (chans m' ! 0)
      \<and> resp (packets m' ! 0) = None \<and> msgsByID m' 7 = None \<and> msgsByID m' 8 = Some 1
      \<and> (\<exists>m''. clearPacketData 7 (TL_object 3 []) (m'\<lparr>msgsByID := [7 \<mapsto> 0]\<rparr>) = Inr m''
            \<and> chans m'' = chans m' \<and> msgsByID m'' 7 = None))
   \<and> clearPacketData 8 (TL_object 2 []) example_client =
       Inr (example_client\<lparr>log := [(LvWarn, ''second response to message #%d %#v'')],
                           msgsByID := [7 \<mapsto> 0]\<rparr>)
   \<and> clearPacketData 9 (TL_object 2 []) example_client = Inr example_client"
proof -
  have a: "msgsByID example_client 7 = Some 0 \<and> 0 < length (packets example_client)
      \<and> resp (packets example_client ! 0) = Some 0 \<and> 0 < length (chans example_client)
      \<and> \<not> closed (chans example_client ! 0)"
    by (simp add: example_client_def)
  have b: "msgsByID example_client 8 = Some 1 \<and> resp (packets example_client ! 1) = None"
    by (simp add: example_client_def)
  have c: "msgsByID example_client 9 = None"
    by (simp add: example_client_def)
  have t: "(msgsByID example_client)(8 := None) = [7 \<mapsto> 0]"
    by (auto simp add: example_client_def)
  have l: "log example_client = []" by (simp add: example_client_def)
  note r7 = C3_clearPacketData_once[of example_client 7 "TL_object 2 []" 0 0]
  note r8 = C3_clearPacketData_once[of example_client 8 "TL_object 2 []" 1 0]
  note r9 = C3_clearPacketData_once[of example_client 9 "TL_object 2 []" 0 0]
  from r7 a obtain m' where m': "clearPacketData 7 (TL_object 2 []) example_client = Inr m'"
      "sent (chans m' ! 0) = sent (chans example_client ! 0) @ [TL_object 2 []]"
      "closed (chans m' ! 0)" "resp (packets m' ! 0) = None"
      "msgsByID m' = (msgsByID example_client)(7 := None)"
      "\<forall>t i2 r2. t i2 = Some 0 \<longrightarrow>
                 (\<exists>m''. clearPacketData i2 r2 (m'\<lparr>msgsByID := t\<rparr>) = Inr m''
                    \<and> chans m'' = chans m' \<and> packets m'' = packets m'
                    \<and> msgsByID m'' = t(i2 := None))"
    by blast
  from m'(6) have "\<exists>m''. clearPacketData 7 (TL_object 3 []) (m'\<lparr>msgsByID := [7 \<mapsto> 0]\<rparr>) = Inr m''
            \<and> chans m'' = chans m' \<and> msgsByID m'' 7 = None"
    by (metis fun_upd_same)
  with m' have p1: "\<exists>m'. clearPacketData 7 (TL_object 2 []) example_client = Inr m'
      \<and> sent (chans m' ! 0) = [TL_object 2 []] \<and> closed (chans m' ! 0)
      \<and> resp (packets m' ! 0) = None \<and> msgsByID m' 7 = None \<and> msgsByID m' 8 = Some 1
      \<and> (\<exists>m''. clearPacketData 7 (TL_object 3 []) (m'\<lparr>msgsByID := [7 \<mapsto> 0]\<rparr>) = Inr m''
            \<and> chans m'' = chans m' \<and> msgsByID m'' 7 = None)"
    by (simp add: example_client_def)
  from r8 b have p2: "clearPacketData 8 (TL_object 2 []) example_client =
       Inr (example_client\<lparr>log := [(LvWarn, ''second response to message #%d %#v'')],
                           msgsByID := [7 \<mapsto> 0]\<rparr>)"
    by (simp add: t l)
  from r9 c have p3: "clearPacketData 9 (TL_object 2 []) example_client = Inr example_client"
    by simp
  from p1 p2 p3 show ?thesis by blast
qed

text \<open>
  C4. Processing a \<open>msgs_ack\<close> never fails and writes to no channel. An entry of the
  pending table is removed exactly when its id is acknowledged and its packet has no
  response channel; every packet that an acknowledged id points to has its needs-ack
  flag cleared and is otherwise unchanged, every other packet is unchanged; ids that
  are not in the table have no effect.
\<close>

theorem C4_msgs_ack:
  "\<exists>m'. process ro m msgId0 seqNo0 (TL_msgs_ack ids) mayPass = Inr m'
     \<and> chans m' = chans m
     \<and> (\<forall>i. msgsByID m' i =
          (if i \<in> set ids \<and> (\<exists>a. msgsByID m i = Some a \<and> resp (packets m ! a) = None)
           then None else msgsByID m i))
     \<and> (\<forall>a<length (packets m). packets m' ! a =
          (if \<exists>i\<in>set ids. msgsByID m i = Some a then (packets m ! a)\<lparr>needAck := False\<rparr>
           else packets m ! a))"
  by (simp add: ack_odd_def enqueue_new_def ack_loop_fields ack_loop_table ack_loop_packets
      nth_append)

text \<open>Acknowledging 8 (fire-and-forget), 7 (waits for a response) and 9 (unknown).\<close>

theorem C4_msgs_ack_witness:
  "\<exists>m'. process example_order example_client 100 2 (TL_msgs_ack [8, 7, 9]) True = Inr m'
     \<and> chans m' = chans example_client
     \<and> msgsByID m' 8 = None \<and> msgsByID m' 7 = Some 0 \<and> msgsByID m' 9 = None
     \<and> packets m' ! 0 = \<lparr>msgID = 7, seqNo = 1, msg = TL_object 1 [], resp = Some 0, needAck = False\<rparr>
     \<and> packets m' ! 1 = \<lparr>msgID = 8, seqNo = 3, msg = TL_ping 5, resp = None, needAck = False\<rparr>"
proof -
  from C4_msgs_ack[of example_order example_client 100 2 "[8, 7, 9]" True]
  obtain m' where m': "process example_order example_client 100 2 (TL_msgs_ack [8, 7, 9]) True = Inr m'"
    "chans m' = chans example_client"
    "\<forall>i. msgsByID m' i =
          (if i \<in> set [8, 7, 9] \<and> (\<exists>a. msgsByID example_client i = Some a
               \<and> resp (packets example_client ! a) = None)
           then None else msgsByID example_client i)"
    "\<forall>a<length (packets example_client). packets m' ! a =
          (if \<exists>i\<in>set [8, 7, 9]. msgsByID example_client i = Some a
           then (packets example_client ! a)\<lparr>needAck := False\<rparr>
           else packets example_client ! a)"
    by blast
  have t: "msgsByID m' 8 = None" "msgsByID m' 7 = Some 0" "msgsByID m' 9 = None"
    by (simp_all add: m'(3) example_client_def)
  have "0 < length (packets example_client)" "1 < length (packets example_client)"
    by (simp_all add: example_client_def)
  then have p: "packets m' ! 0 = \<lparr>msgID = 7, seqNo = 1, msg = TL_object 1 [], resp = Some 0, needAck = False\<rparr>"
    "packets m' ! 1 = \<lparr>msgID = 8, seqNo = 3, msg = TL_ping 5, resp = None, needAck = False\<rparr>"
    using m'(4) by (simp_all add: example_client_def)
  show ?thesis using m'(1,2) t p by simp
qed

lemma map_filter_upd: "i \<notin> set ks \<Longrightarrow> List.map_filter (t(i := None)) ks = List.map_filter t ks"
  by (induction ks) (auto simp add: List.map_filter_simps split: option.splits)

lemma image_the_dom: "(\<lambda>x. the (t x)) ` dom t = ran t"
  unfolding ran_def dom_def by force

lemma pop_loop_all:
  "distinct ks \<Longrightarrow>
   pop_loop ks t ps = ((\<lambda>i. if i \<in> set ks then None else t i), ps @ List.map_filter t ks)"
proof (induction ks arbitrary: t ps)
  case Nil
  show ?case by (simp add: List.map_filter_simps)
next
  case (Cons k ks)
  show ?case
  proof (cases "t k")
    case None
    then show ?thesis using Cons by (auto simp add: List.map_filter_simps)
  next
    case (Some p)
    then show ?thesis using Cons by (auto simp add: List.map_filter_simps map_filter_upd)
  qed
qed

lemma map_filter_dom: "set ks \<subseteq> dom t \<Longrightarrow> List.map_filter t ks = map (the \<circ> t) ks"
  by (induction ks) (auto simp add: List.map_filter_simps)

lemma pop_loop_dom:
  assumes "distinct ks" and "set ks = dom t"
  shows "pop_loop ks t [] = (Map.empty, map (the \<circ> t) ks)"
proof -
  have "(\<lambda>i. if i \<in> set ks then None else t i) = Map.empty"
    using assms(2) by (auto simp add: fun_eq_iff)
  then show ?thesis
    using assms by (simp add: pop_loop_all map_filter_dom)
qed

lemma resendPendingPackets_all:
  assumes "distinct (ro (msgsByID m))" and "set (ro (msgsByID m)) = dom (msgsByID m)"
  shows "resendPendingPackets ro m =
     m\<lparr>msgsByID := Map.empty,
       log := log m @ [(LvDebug, ''popped %d pending packet(s): %#v''),
                       (LvDebug, ''pushed %d pending packet(s)'')],
       sendQueue := sendQueue m @ map (the \<circ> msgsByID m) (ro (msgsByID m))\<rparr>"
  by (simp add: resendPendingPackets_def popPendingPacketsUnlocked_def
      pushPendingPacketsUnlocked_def pop_loop_dom[OF assms] logf_def)

lemma SaveSessionLogged_fields:
  "session (SaveSessionLogged m) = session m
   \<and> world (SaveSessionLogged m) = snd (Save (sessionStore m) (session m) (world m))
   \<and> msgsByID (SaveSessionLogged m) = msgsByID m \<and> sendQueue (SaveSessionLogged m) = sendQueue m
   \<and> packets (SaveSessionLogged m) = packets m \<and> chans (SaveSessionLogged m) = chans m
   \<and> encryptionReady (SaveSessionLogged m) = encryptionReady m
   \<and> log (SaveSessionLogged m) =
       log m @ (if fst (Save (sessionStore m) (session m) (world m)) = None then []
                else [(LvError, ''failed to save session data'')])"
  by (simp add: SaveSessionLogged_def logf_def split: prod.splits option.splits)

text \<open>
  C2. Processing a \<open>bad_server_salt\<close>, for any order in which the runtime visits the keys
  of the pending table: the server salt of the session becomes the new salt and no
  other field of the session changes; the store's \<^verbatim>\<open>Save\<close> is run on that session; the
  pending table is emptied and the pointer of each packet it held is put on the internal
  queue, once per entry, behind what was queued (and before the acknowledgement of the
  notification itself, if its sequence number is odd).
\<close>

theorem C2_bad_server_salt:
  assumes "distinct (ro (msgsByID m))" and "set (ro (msgsByID m)) = dom (msgsByID m)"
  shows "\<exists>m'. process ro m msgId0 seqNo0 (TL_bad_server_salt badMsgID salt) mayPass = Inr m'
     \<and> session m' = (session m)\<lparr>ServerSalt := salt\<rparr>
     \<and> world m' = snd (Save (sessionStore m) ((session m)\<lparr>ServerSalt := salt\<rparr>) (world m))
     \<and> msgsByID m' = Map.empty
     \<and> sendQueue m' = sendQueue m @ map (the \<circ> msgsByID m) (ro (msgsByID m))
          @ (if seqNo0 AND 1 = 1 then [length (packets m)] else [])
     \<and> set (map (the \<circ> msgsByID m) (ro (msgsByID m))) = ran (msgsByID m)
     \<and> packets m' = packets m
          @ (if seqNo0 AND 1 = 1 then [newPacket (TL_msgs_ack [msgId0]) None] else [])
     \<and> chans m' = chans m \<and> encryptionReady m' = encryptionReady m"
proof -
  let ?m1 = "SaveSessionLogged (m\<lparr>session := (session m)\<lparr>ServerSalt := salt\<rparr>\<rparr>)"
  have f: "msgsByID ?m1 = msgsByID m" "sendQueue ?m1 = sendQueue m" "packets ?m1 = packets m"
    "chans ?m1 = chans m" "encryptionReady ?m1 = encryptionReady m"
    "session ?m1 = (session m)\<lparr>ServerSalt := salt\<rparr>"
    "world ?m1 = snd (Save (sessionStore m) ((session m)\<lparr>ServerSalt := salt\<rparr>) (world m))"
    using SaveSessionLogged_fields[of "m\<lparr>session := (session m)\<lparr>ServerSalt := salt\<rparr>\<rparr>"]
    by simp_all
  have r: "resendPendingPackets ro ?m1 =
     ?m1\<lparr>msgsByID := Map.empty,
       log := log ?m1 @ [(LvDebug, ''popped %d pending packet(s): %#v''),
                       (LvDebug, ''pushed %d pending packet(s)'')],
       sendQueue := sendQueue ?m1 @ map (the \<circ> msgsByID ?m1) (ro (msgsByID ?m1))\<rparr>"
    by (rule resendPendingPackets_all) (simp_all only: f assms)
  have s: "(\<lambda>x. the (msgsByID m x)) ` set (ro (msgsByID m)) = ran (msgsByID m)"
    by (simp only: assms(2) image_the_dom)
  show ?thesis
    by (simp add: ack_odd_def enqueue_new_def r f s)
qed

text \<open>Both pending packets of the example client are queued again, 8 before 7.\<close>

theorem C2_bad_server_salt_witness:
  "distinct (example_order (msgsByID example_client))
   \<and> set (example_order (msgsByID example_client)) = dom (msgsByID example_client)
   \<and> (\<exists>m'. process example_order example_client 100 1 (TL_bad_server_salt 7 153) True = Inr m'
        \<and> session m' = example_session\<lparr>ServerSalt := 153\<rparr>
        \<and> world m' = snd (SessFileStore_Save ''tg.session''
                              (example_session\<lparr>ServerSalt := 153\<rparr>) example_fs)
        \<and> msgsByID m' = Map.empty
        \<and> sendQueue m' = [1, 0, 2]
        \<and> packets m' ! 2 = newPacket (TL_msgs_ack [100]) None)"
proof -
  have o: "example_order (msgsByID example_client) = [8, 7]"
    by (simp add: example_order_def example_client_def)
  have h1: "distinct (example_order (msgsByID example_client))"
    by (simp add: o)
  have h2: "set (example_order (msgsByID example_client)) = dom (msgsByID example_client)"
  proof -
    have "dom (msgsByID example_client) = {7, 8}" by (auto simp add: example_client_def)
    then show ?thesis by (simp only: o) auto
  qed
  from C2_bad_server_salt[of example_order example_client 100 1 7 153 True, OF h1 h2]
  show ?thesis
    using h1 h2 unfolding o by (auto simp add: example_client_def SessFileStore_def)
qed

subsection \<open>Acknowledgements\<close>

lemma odd_sint: "odd (sint (s::'a::len word)) = odd s"
  using bit_sint_iff[of s 0] by (simp add: bit_0)

lemma and_1_odd: "(s AND 1 = 1) = odd (sint (s::int32))"
proof -
  have "(s AND 1 = 1) = odd s"
    by (simp add: and_one_eq odd_iff_mod_2_eq_one)
  then show ?thesis by (simp only: odd_sint)
qed

lemma ack_odd_0: "ack_odd i 0 r = r"
  by (simp add: ack_odd_def split: sum.splits)

lemma process_ack_last: "process ro m i s d pass = ack_odd i s (process ro m i 0 d pass)"
  by (cases d) (simp_all add: ack_odd_0)

lemma grows_same:
  "packets m' = packets m \<Longrightarrow> msgsByID m' = msgsByID m \<Longrightarrow> sendQueue m' = sendQueue m
   \<Longrightarrow> grows n m m' []"
  by (simp add: grows_def)

lemma grows_trans:
  "grows n m m1 new1 \<Longrightarrow> grows n m1 m2 new2 \<Longrightarrow> grows n m m2 (new1 @ new2)"
  apply (clarsimp simp add: grows_def)
  apply (metis le_add1 upt_add_eq_append add.assoc)
  done

lemma wf_grows: "wf_tab n m \<Longrightarrow> grows n m m' new \<Longrightarrow> wf_tab n m'"
  by (auto simp add: wf_tab_def grows_def)

lemma grows_enqueue: "n \<le> length (packets m) \<Longrightarrow> grows n m (enqueue_new p m) [p]"
  by (simp add: grows_def enqueue_new_def)


lemma grows_ack_odd:
  assumes "n \<le> length (packets m)" and "ack_odd i s (Inr m) = Inr m'"
  shows "grows n m m' (map ack_packet (own_ack i s))"
proof (cases "s AND 1 = 1")
  case True
  then have "m' = enqueue_new (ack_packet i) m"
    using assms(2) by (simp add: ack_odd_def ack_packet_def)
  then show ?thesis
    using True assms(1) by (simp add: own_ack_def and_1_odd[symmetric] grows_enqueue)
next
  case False
  then have "m' = m" using assms(2) by (simp add: ack_odd_def)
  then show ?thesis
    using False by (simp add: own_ack_def and_1_odd[symmetric] grows_same)
qed

lemma ack_odd_grows:
  assumes "wf_tab n m" and "ack_odd i s r = Inr m'"
    and "\<And>m1. r = Inr m1 \<Longrightarrow> grows n m m1 new"
  shows "grows n m m' (new @ map ack_packet (own_ack i s))"
proof -
  from assms(2) obtain m1 where r: "r = Inr m1"
    by (cases r) (simp_all add: ack_odd_def)
  have g1: "grows n m m1 new" using assms(3) r by simp
  then have "wf_tab n m1" using assms(1) by (rule wf_grows[rotated])
  then have "n \<le> length (packets m1)" by (simp add: wf_tab_def)
  then have "grows n m1 m' (map ack_packet (own_ack i s))"
    using assms(2) r by (simp add: grows_ack_odd)
  with g1 show ?thesis by (rule grows_trans)
qed

lemma grows_clear:
  assumes "wf_tab n m" and "clearPacketData i r m = Inr m'"
  shows "grows n m m' []"
  using assms
  by (auto simp add: clearPacketData_def grows_def wf_tab_def logf_def drop_update_cancel
      split: option.splits if_splits)

lemma grows_ack_loop: "wf_tab n m \<Longrightarrow> grows n m (ack_loop ids m) []"
proof (induction ids arbitrary: m)
  case Nil
  show ?case by (simp add: grows_same)
next
  case (Cons j ids)
  show ?case
  proof (cases "msgsByID m j")
    case None
    then show ?thesis using Cons by simp
  next
    case (Some p)
    let ?m1 = "m\<lparr>packets := (packets m)[p := (packets m ! p)\<lparr>needAck := False\<rparr>]\<rparr>"
    let ?m2 = "if resp (packets ?m1 ! p) = None then ?m1\<lparr>msgsByID := (msgsByID ?m1)(j := None)\<rparr>
               else ?m1"
    have pn: "p < n" using Cons.prems Some by (simp add: wf_tab_def)
    have g: "grows n m ?m2 []"
      using pn by (simp add: grows_def drop_update_cancel)
    then have "wf_tab n ?m2" using Cons.prems by (rule wf_grows[rotated])
    then have "grows n ?m2 (ack_loop ids ?m2) []" by (rule Cons.IH)
    with g have "grows n m (ack_loop ids ?m2) ([] @ [])" by (rule grows_trans)
    moreover have "ack_loop (j # ids) m = ack_loop ids ?m2"
      using Some by (simp add: Let_def)
    ultimately show ?thesis by simp
  qed
qed

lemma pop_loop_sub:
  "pop_loop ks t ps = (t', ps') \<Longrightarrow>
   (\<forall>i a. t' i = Some a \<longrightarrow> t i = Some a) \<and> (\<exists>q. ps' = ps @ q \<and> set q \<subseteq> ran t)"
proof (induction ks arbitrary: t ps)
  case Nil
  then show ?case by simp
next
  case (Cons k ks)
  show ?case
  proof (cases "t k")
    case None
    then show ?thesis using Cons by simp
  next
    case (Some p)
    then have "pop_loop ks (t(k := None)) (ps @ [p]) = (t', ps')"
      using Cons.prems by simp
    from Cons.IH[OF this] obtain q where
      a: "\<forall>i a. t' i = Some a \<longrightarrow> (t(k := None)) i = Some a"
      and b: "ps' = (ps @ [p]) @ q" and c: "set q \<subseteq> ran (t(k := None))"
      by blast
    have "ran (t(k := None)) \<subseteq> ran t"
      by (auto simp add: ran_def split: if_splits)
    moreover have "p \<in> ran t" using Some by (auto simp add: ran_def)
    ultimately have "set (p # q) \<subseteq> ran t" using c by auto
    moreover have "\<forall>i a. t' i = Some a \<longrightarrow> t i = Some a"
      using a by (metis fun_upd_apply option.distinct(1))
    ultimately show ?thesis using b by (intro conjI exI[of _ "p # q"]) simp_all
  qed
qed

lemma grows_resend: "wf_tab n m \<Longrightarrow> grows n m (resendPendingPackets ro m) []"
proof -
  assume wf: "wf_tab n m"
  obtain t' ps' where p: "pop_loop (ro (msgsByID m)) (msgsByID m) [] = (t', ps')"
    by (cases "pop_loop (ro (msgsByID m)) (msgsByID m) []")
  from pop_loop_sub[OF p] have a: "\<forall>i a. t' i = Some a \<longrightarrow> msgsByID m i = Some a"
    and c: "set ps' \<subseteq> ran (msgsByID m)" by auto
  have "\<forall>a\<in>set ps'. a < n"
    using c wf by (auto simp add: wf_tab_def ran_def)
  then have f: "filter (\<lambda>a. n \<le> a) ps' = []"
    by (auto simp add: filter_empty_conv)
  show ?thesis
    using a f
    by (simp add: resendPendingPackets_def popPendingPacketsUnlocked_def
        pushPendingPacketsUnlocked_def p logf_def grows_def)
qed

lemma grows_save:
  "grows n m (SaveSessionLogged (m\<lparr>session := x\<rparr>)) []"
  by (rule grows_same)
     (simp_all add: SaveSessionLogged_def logf_def split: prod.splits option.splits)

lemma grows_save_resend:
  assumes "wf_tab n m"
  shows "grows n m (resendPendingPackets ro (SaveSessionLogged (m\<lparr>session := x\<rparr>))) []"
proof -
  have g: "grows n m (SaveSessionLogged (m\<lparr>session := x\<rparr>)) []" by (rule grows_save)
  then have "wf_tab n (SaveSessionLogged (m\<lparr>session := x\<rparr>))"
    using assms by (rule wf_grows[rotated])
  then have "grows n (SaveSessionLogged (m\<lparr>session := x\<rparr>))
      (resendPendingPackets ro (SaveSessionLogged (m\<lparr>session := x\<rparr>))) []"
    by (rule grows_resend)
  with g have "grows n m (resendPendingPackets ro (SaveSessionLogged (m\<lparr>session := x\<rparr>))) ([] @ [])"
    by (rule grows_trans)
  then show ?thesis by simp
qed

lemma grows_pass: "grows n m (pass_to_handler d pass m) []"
  by (rule grows_same) (simp_all add: pass_to_handler_def)


lemma process_grows:
  "wf_tab n m \<Longrightarrow> process ro m i s d pass = Inr m' \<Longrightarrow> grows n m m' (replies i s d)"
  "wf_tab n m \<Longrightarrow> process_items ro m vs = Inr m' \<Longrightarrow> grows n m m' (replies_items vs)"
proof (induction ro m i s d pass and ro m vs arbitrary: m' and m'
    rule: process_process_items.induct)
  case (1 ro m msgId0 seqNo0 items mayPassToHandler)
  have "grows n m m' (replies_items items @ map ack_packet (own_ack msgId0 seqNo0))"
  proof (rule ack_odd_grows[OF "1.prems"(1)])
    show "ack_odd msgId0 seqNo0 (process_items ro m items) = Inr m'"
      using "1.prems"(2) by simp
    show "grows n m m1 (replies_items items)" if "process_items ro m items = Inr m1" for m1
      using "1.prems"(1) that by (rule "1.IH")
  qed
  then show ?case by simp
next
  case (2 ro m msgId0 seqNo0 badMsgID newServerSalt mayPassToHandler)
  have "grows n m m' ([] @ map ack_packet (own_ack msgId0 seqNo0))"
  proof (rule ack_odd_grows[OF "2.prems"(1)])
    show "ack_odd msgId0 seqNo0 (Inr (resendPendingPackets ro (SaveSessionLogged (m\<lparr>session := (session m)\<lparr>ServerSalt := newServerSalt\<rparr>\<rparr>))) :: fault + _) = Inr m'"
      using "2.prems"(2) by simp
    show "grows n m m1 ([])" if "(Inr (resendPendingPackets ro (SaveSessionLogged (m\<lparr>session := (session m)\<lparr>ServerSalt := newServerSalt\<rparr>\<rparr>))) :: fault + _) = Inr m1" for m1
      using that "2.prems"(1) grows_save_resend[of n m ro] by auto
  qed
  then show ?case by simp
next
  case (3 ro m msgId0 seqNo0 badMsgID mayPassToHandler)
  have "grows n m m' ([] @ map ack_packet (own_ack msgId0 seqNo0))"
  proof (rule ack_odd_grows[OF "3.prems"(1)])
    show "ack_odd msgId0 seqNo0 (clearPacketData badMsgID (TL_bad_msg_notification badMsgID) m) = Inr m'"
      using "3.prems"(2) by simp
    show "grows n m m1 ([])" if "clearPacketData badMsgID (TL_bad_msg_notification badMsgID) m = Inr m1" for m1
      using "3.prems"(1) that by (rule grows_clear)
  qed
  then show ?case by simp
next
  case (4 ro m msgId0 seqNo0 reqMsgID mayPassToHandler)
  have "grows n m m' ([] @ map ack_packet (own_ack msgId0 seqNo0))"
  proof (rule ack_odd_grows[OF "4.prems"(1)])
    show "ack_odd msgId0 seqNo0 (clearPacketData reqMsgID (TL_msgs_state_info reqMsgID) m) = Inr m'"
      using "4.prems"(2) by simp
    show "grows n m m1 ([])" if "clearPacketData reqMsgID (TL_msgs_state_info reqMsgID) m = Inr m1" for m1
      using "4.prems"(1) that by (rule grows_clear)
  qed
  then show ?case by simp
next
  case (5 ro m msgId0 seqNo0 serverSalt mayPassToHandler)
  have "grows n m m' ([] @ map ack_packet (own_ack msgId0 seqNo0))"
  proof (rule ack_odd_grows[OF "5.prems"(1)])
    show "ack_odd msgId0 seqNo0 (Inr (SaveSessionLogged (m\<lparr>session := (session m)\<lparr>ServerSalt := serverSalt\<rparr>\<rparr>)) :: fault + _) = Inr m'"
      using "5.prems"(2) by simp
    show "grows n m m1 ([])" if "(Inr (SaveSessionLogged (m\<lparr>session := (session m)\<lparr>ServerSalt := serverSalt\<rparr>\<rparr>)) :: fault + _) = Inr m1" for m1
      using that grows_save[of n m] by auto
  qed
  then show ?case by simp
next
  case (6 ro m msgId0 seqNo0 pingID mayPassToHandler)
  have "grows n m m' ([newPacket (TL_pong msgId0 pingID) None] @ map ack_packet (own_ack msgId0 seqNo0))"
  proof (rule ack_odd_grows[OF "6.prems"(1)])
    show "ack_odd msgId0 seqNo0 (Inr (enqueue_new (newPacket (TL_pong msgId0 pingID) None) m) :: fault + _) = Inr m'"
      using "6.prems"(2) by simp
    show "grows n m m1 ([newPacket (TL_pong msgId0 pingID) None])" if "(Inr (enqueue_new (newPacket (TL_pong msgId0 pingID) None) m) :: fault + _) = Inr m1" for m1
      using that "6.prems"(1) by (auto simp add: grows_enqueue wf_tab_def)
  qed
  then show ?case by simp
next
  case (7 ro m msgId0 seqNo0 a b mayPassToHandler)
  have "grows n m m' ([] @ map ack_packet (own_ack msgId0 seqNo0))"
  proof (rule ack_odd_grows[OF "7.prems"(1)])
    show "ack_odd msgId0 seqNo0 (Inr m :: fault + _) = Inr m'"
      using "7.prems"(2) by simp
    show "grows n m m1 ([])" if "(Inr m :: fault + _) = Inr m1" for m1
      using that by (auto simp add: grows_same)
  qed
  then show ?case by simp
next
  case (8 ro m msgId0 seqNo0 msgIds mayPassToHandler)
  have "grows n m m' ([] @ map ack_packet (own_ack msgId0 seqNo0))"
  proof (rule ack_odd_grows[OF "8.prems"(1)])
    show "ack_odd msgId0 seqNo0 (Inr (ack_loop msgIds m) :: fault + _) = Inr m'"
      using "8.prems"(2) by simp
    show "grows n m m1 ([])" if "(Inr (ack_loop msgIds m) :: fault + _) = Inr m1" for m1
      using that "8.prems"(1) by (auto simp add: grows_ack_loop)
  qed
  then show ?case by simp
next
  case (9 ro m msgId0 seqNo0 reqMsgId ob mayPassToHandler)
  have "grows n m m' (replies msgId0 0 ob @ map ack_packet (own_ack msgId0 seqNo0))"
  proof (rule ack_odd_grows[OF "9.prems"(1)])
    show "ack_odd msgId0 seqNo0 (case process ro m msgId0 0 ob False of Inl f \<Rightarrow> Inl f
          | Inr m1 \<Rightarrow> clearPacketData reqMsgId ob m1) = Inr m'"
      using "9.prems"(2) by simp
    show "grows n m m2 (replies msgId0 0 ob)"
      if "(case process ro m msgId0 0 ob False of Inl f \<Rightarrow> Inl f
          | Inr m1 \<Rightarrow> clearPacketData reqMsgId ob m1) = Inr m2" for m2
    proof -
      from that obtain m1 where p: "process ro m msgId0 0 ob False = Inr m1"
        and c: "clearPacketData reqMsgId ob m1 = Inr m2"
        by (cases "process ro m msgId0 0 ob False") simp_all
      have g1: "grows n m m1 (replies msgId0 0 ob)" using "9.prems"(1) p by (rule "9.IH")
      then have "wf_tab n m1" using "9.prems"(1) by (rule wf_grows[rotated])
      then have "grows n m1 m2 []" using c by (rule grows_clear)
      with g1 have "grows n m m2 (replies msgId0 0 ob @ [])" by (rule grows_trans)
      then show ?thesis by simp
    qed
  qed
  then show ?case by simp
next
  case (10 ro m msgId0 seqNo0 mayPassToHandler)
  have "grows n m m' ([] @ map ack_packet (own_ack msgId0 seqNo0))"
  proof (rule ack_odd_grows[OF "10.prems"(1)])
    show "ack_odd msgId0 seqNo0 (Inr (pass_to_handler TL_nil mayPassToHandler m) :: fault + _) = Inr m'"
      using "10.prems"(2) by simp
    show "grows n m m1 ([])" if "(Inr (pass_to_handler TL_nil mayPassToHandler m) :: fault + _) = Inr m1" for m1
      using that by (auto simp add: grows_pass)
  qed
  then show ?case by simp
next
  case (11 ro m msgId0 seqNo0 tag payload mayPassToHandler)
  have "grows n m m' ([] @ map ack_packet (own_ack msgId0 seqNo0))"
  proof (rule ack_odd_grows[OF "11.prems"(1)])
    show "ack_odd msgId0 seqNo0 (Inr (pass_to_handler (TL_object tag payload) mayPassToHandler m) :: fault + _) = Inr m'"
      using "11.prems"(2) by simp
    show "grows n m m1 ([])" if "(Inr (pass_to_handler (TL_object tag payload) mayPassToHandler m) :: fault + _) = Inr m1" for m1
      using that by (auto simp add: grows_pass)
  qed
  then show ?case by simp
next
  case (12 ro m)
  then show ?case by (simp add: grows_same)
next
  case (13 ro m vMsgID vSeqNo vBytes vData vs)
  from "13.prems"(2) obtain m1 where p: "process ro m vMsgID vSeqNo vData True = Inr m1"
    and r: "process_items ro m1 vs = Inr m'"
    by (cases "process ro m vMsgID vSeqNo vData True") simp_all
  have g1: "grows n m m1 (replies vMsgID vSeqNo vData)"
    using "13.prems"(1) p by (rule "13.IH"(1))
  then have "wf_tab n m1" using "13.prems"(1) by (rule wf_grows[rotated])
  then have "grows n m1 m' (replies_items vs)" using r by (rule "13.IH"(2)[OF p])
  with g1 have "grows n m m' (replies vMsgID vSeqNo vData @ replies_items vs)"
    by (rule grows_trans)
  then show ?case by simp
qed


lemma replies_acks:
  "filter is_msgs_ack (replies i s d) = map ack_packet (expected_acks i s d)"
  "filter is_msgs_ack (replies_items vs) = map ack_packet (expected_acks_items vs)"
proof (induction i s d and vs rule: replies_replies_items.induct)
qed (simp_all add: ack_packet_def newPacket_def own_ack_def)

text \<open>
  C1. Let \<^verbatim>\<open>process\<close> return on a message, from a state whose pending table points to
  existing packets. For each message in the tree with an odd sequence number (container
  items with their own id and sequence number, the object in an \<open>rpc_result\<close> with
  sequence number 0, so it gets none of its own) exactly one \<open>msgs_ack\<close> packet with
  exactly that id is created, in the order in which the messages finish; every packet
  created is put on the internal queue exactly once, in the order of creation. The
  acknowledgement of an odd message is the last packet created and queued, after all
  nested processing, which is what \<^verbatim>\<open>process\<close> does with the same message under an even
  sequence number; an even message adds nothing to that.
\<close>

theorem C1_ack_per_odd_message:
  assumes "wf_tab (length (packets m)) m"
    and "process ro m msgId0 seqNo0 d mayPass = Inr m'"
  shows "filter is_msgs_ack (drop (length (packets m)) (packets m'))
           = map ack_packet (expected_acks msgId0 seqNo0 d)
     \<and> filter (\<lambda>a. length (packets m) \<le> a) (drop (length (sendQueue m)) (sendQueue m'))
           = [length (packets m) ..< length (packets m')]
     \<and> (odd (sint seqNo0) \<longrightarrow>
          (\<exists>m1. process ro m msgId0 0 d mayPass = Inr m1
             \<and> packets m' = packets m1 @ [ack_packet msgId0]
             \<and> sendQueue m' = sendQueue m1 @ [length (packets m1)]))
     \<and> (even (sint seqNo0) \<longrightarrow> process ro m msgId0 0 d mayPass = Inr m')"
proof -
  from process_grows(1)[OF assms]
  have g: "grows (length (packets m)) m m' (replies msgId0 seqNo0 d)" .
  then have a: "drop (length (packets m)) (packets m') = replies msgId0 seqNo0 d"
    by (simp add: grows_def)
  from g obtain q where q: "sendQueue m' = sendQueue m @ q"
    "filter (\<lambda>a. length (packets m) \<le> a) q = [length (packets m) ..< length (packets m')]"
    by (auto simp add: grows_def)
  have b: "filter (\<lambda>a. length (packets m) \<le> a) (drop (length (sendQueue m)) (sendQueue m'))
           = [length (packets m) ..< length (packets m')]"
    using q by simp
  have l: "ack_odd msgId0 seqNo0 (process ro m msgId0 0 d mayPass) = Inr m'"
    using assms(2) process_ack_last[of ro m msgId0 seqNo0 d mayPass] by simp
  have c: "\<exists>m1. process ro m msgId0 0 d mayPass = Inr m1
             \<and> packets m' = packets m1 @ [ack_packet msgId0]
             \<and> sendQueue m' = sendQueue m1 @ [length (packets m1)]" if "odd (sint seqNo0)"
    using l that
    by (cases "process ro m msgId0 0 d mayPass")
       (auto simp add: ack_odd_def and_1_odd enqueue_new_def ack_packet_def)
  have d: "process ro m msgId0 0 d mayPass = Inr m'" if "even (sint seqNo0)"
    using l that
    by (cases "process ro m msgId0 0 d mayPass") (auto simp add: ack_odd_def and_1_odd)
  show ?thesis using a b c d by (simp add: replies_acks)
qed

text \<open>
  The spec's container scenario, processed with id 100 and sequence number 5: a pong,
  the acknowledgements of 10, 12 and 100, and the response to request 7.
\<close>

theorem C1_ack_per_odd_message_witness:
  "wf_tab (length (packets example_client)) example_client
   \<and> (\<exists>m'. process example_order example_client 100 5 example_container True = Inr m'
        \<and> map msg (drop 2 (packets m'))
            = [TL_pong 10 1, TL_msgs_ack [10], TL_msgs_ack [12], TL_msgs_ack [100]]
        \<and> filter is_msgs_ack (drop 2 (packets m'))
            = [ack_packet 10, ack_packet 12, ack_packet 100]
        \<and> sendQueue m' = [2, 3, 4, 5]
        \<and> sent (chans m' ! 0) = [TL_object 9 []])"
proof -
  have wf: "wf_tab (length (packets example_client)) example_client"
    by (simp add: wf_tab_def example_client_def)
  define m' where "m' = projr (process example_order example_client 100 5 example_container True)"
  have run: "process example_order example_client 100 5 example_container True = Inr m'"
    by (simp add: m'_def example_client_def example_container_def ack_odd_def enqueue_new_def
        clearPacketData_def newPacket_def pass_to_handler_def)
  have len: "length (packets example_client) = 2" by (simp add: example_client_def)
  have e: "expected_acks 100 5 example_container = [10, 12, 100]"
    by (simp add: example_container_def own_ack_def)
  have f: "map msg (drop 2 (packets m'))
            = [TL_pong 10 1, TL_msgs_ack [10], TL_msgs_ack [12], TL_msgs_ack [100]]"
    "sendQueue m' = [2, 3, 4, 5]" "sent (chans m' ! 0) = [TL_object 9 []]"
    by (simp_all add: m'_def example_client_def example_container_def ack_odd_def enqueue_new_def
        clearPacketData_def newPacket_def pass_to_handler_def)
  show ?thesis
    using wf run f C1_ack_per_odd_message[OF wf run] by (simp add: len e)
qed

section \<open>The ping worker\<close>

lemma with_pings_0: "with_pings 0 m = m"
  by (simp add: with_pings_def)

lemma with_pings_Suc: "with_pings k (enqueue_new ping_packet m) = with_pings (Suc k) m"
  by (simp add: with_pings_def enqueue_new_def replicate_app_Cons_same upt_conv_Cons)

lemma pingRoutine_timers:
  "pingRoutine (replicate k Timer60s @ ws) m = pingRoutine ws (with_pings k m)"
proof (induction k arbitrary: m)
  case 0
  show ?case by (simp add: with_pings_0)
next
  case (Suc k)
  have "pingRoutine (replicate (Suc k) Timer60s @ ws) m
      = pingRoutine (replicate k Timer60s @ ws) (enqueue_new ping_packet m)"
    by (simp add: ping_packet_def)
  then show ?case by (simp only: Suc with_pings_Suc)
qed

text \<open>
  C5 (as amended). Each time the 60-second timer fires before a stop token arrives, the
  ping worker puts one new packet on the internal queue: a ping with the constant ping
  id \<open>0xCADACADA\<close> and no response channel. After \<open>k\<close> timer events the worker is still
  waiting; when a stop token arrives it takes the token, reports to the wait group and
  returns, whatever would follow.
\<close>

theorem C5_pingRoutine:
  "pingRoutine (replicate k Timer60s) m = (with_pings k m, False)
   \<and> (0 < routinesStop m \<longrightarrow>
        pingRoutine (replicate k Timer60s @ StopToken # ws) m =
          ((logf LvDebug ''pingRoutine done''
              ((with_pings k m)\<lparr>routinesStop := routinesStop m - 1\<rparr>))
             \<lparr>routinesWG := routinesWG m - 1\<rparr>, True))
   \<and> packets (with_pings k m) = packets m @ replicate k (newPacket (TL_ping 0xCADACADA) None)
   \<and> sendQueue (with_pings k m) = sendQueue m @ [length (packets m) ..< length (packets m) + k]
   \<and> resp (newPacket (TL_ping 0xCADACADA) None) = None"
proof -
  have a: "pingRoutine (replicate k Timer60s) m = (with_pings k m, False)"
    using pingRoutine_timers[of k "[]" m] by simp
  have b: "pingRoutine (replicate k Timer60s @ StopToken # ws) m =
          ((logf LvDebug ''pingRoutine done''
              ((with_pings k m)\<lparr>routinesStop := routinesStop m - 1\<rparr>))
             \<lparr>routinesWG := routinesWG m - 1\<rparr>, True)" if "0 < routinesStop m"
    using that
    by (simp add: pingRoutine_timers pingRoutine_done_def with_pings_def logf_def)
  show ?thesis
    using a b by (simp add: with_pings_def ping_packet_def newPacket_def)
qed

text \<open>Two timer events and a stop token.\<close>

theorem C5_pingRoutine_witness:
  "0 < routinesStop (example_client\<lparr>routinesStop := 1\<rparr>)
   \<and> pingRoutine (replicate 2 Timer60s @ StopToken # [Timer60s])
        (example_client\<lparr>routinesStop := 1\<rparr>) =
      (example_client\<lparr>routinesStop := 0, routinesWG := 3,
         log := [(LvDebug, ''pingRoutine done'')],
         packets := packets example_client @ [ping_packet, ping_packet],
         sendQueue := [2, 3]\<rparr>, True)"
proof -
  have h: "0 < routinesStop (example_client\<lparr>routinesStop := 1\<rparr>)" by simp
  have u: "[length (packets example_client) ..< length (packets example_client) + 2] = [2, 3]"
    by (simp add: example_client_def upt_conv_Cons)
  have r: "replicate 2 ping_packet = [ping_packet, ping_packet]"
    by (simp add: numeral_2_eq_2)
  from C5_pingRoutine[of 2 "example_client\<lparr>routinesStop := 1\<rparr>" "[Timer60s]"] h
  have "pingRoutine (replicate 2 Timer60s @ StopToken # [Timer60s])
        (example_client\<lparr>routinesStop := 1\<rparr>) =
          ((logf LvDebug ''pingRoutine done''
              ((with_pings 2 (example_client\<lparr>routinesStop := 1\<rparr>))\<lparr>routinesStop := 1 - 1\<rparr>))
             \<lparr>routinesWG := routinesWG (example_client\<lparr>routinesStop := 1\<rparr>) - 1\<rparr>, True)"
    by simp
  then show ?thesis
    using h by (simp add: with_pings_def logf_def u r) (simp add: example_client_def)
qed

text \<open>
  C5 as stated, a random ping id, fails: the two pings of one run, and the ping of a
  run from another state, all carry the same id \<open>0xCADACADA\<close>.
\<close>

theorem C5_constant_ping_id_counterexample:
  "map msg (drop 2 (packets (fst (pingRoutine [Timer60s, Timer60s, StopToken]
        (example_client\<lparr>routinesStop := 1\<rparr>)))))
     = [TL_ping 0xCADACADA, TL_ping 0xCADACADA]
   \<and> map msg (drop 2 (packets (fst (pingRoutine [Timer60s, StopToken]
        (example_client\<lparr>routinesStop := 4, session := blank_session\<rparr>)))))
     = [TL_ping 0xCADACADA]"
  by (simp add: example_client_def enqueue_new_def pingRoutine_done_def logf_def newPacket_def)

section \<open>Reconnection\<close>

text \<open>
  What \<^verbatim>\<open>reconnectToDc\<close> does once the workers are stopped. A failure to close the
  connection ends it before. The encryption-ready flag is cleared when the new
  data-center id differs from the one of the session and is left as it was otherwise.
  The endpoint is looked up in the table of DC options (entries that are not IPv6)
  whether or not the data center changes: without an entry the result is the error
  "wrong DC number", with an entry the session gets the new id and the address found
  and \<^verbatim>\<open>Connect\<close> is run on that state.
\<close>

lemma reconnectToDc_lookup:
  "(stopRoutines env m = (Some e, m1) \<longrightarrow> reconnectToDc env ro m newDcID = (Some e, m1))
   \<and> (stopRoutines env m = (None, m1) \<and> DCAddr (dcOptions m1) newDcID False = None \<longrightarrow>
        reconnectToDc env ro m newDcID =
          (Some (Errorf ''wrong DC number: %d'' [sint newDcID]),
           (logf LvDebug ''found %d pending packet(s)'' m1)
             \<lparr>encryptionReady := encryptionReady m1 \<and> newDcID = DcID (session m1)\<rparr>))
   \<and> (stopRoutines env m = (None, m1) \<and> DCAddr (dcOptions m1) newDcID False = Some addr \<longrightarrow>
        (\<exists>m4. m4 = (logf LvDebug ''found %d pending packet(s)'' m1)
                      \<lparr>encryptionReady := encryptionReady m1 \<and> newDcID = DcID (session m1),
                        session := (session m1)\<lparr>DcID := newDcID, Addr := addr\<rparr>\<rparr>
           \<and> fst (reconnectToDc env ro m newDcID) = fst (Connect env m4)
           \<and> (fst (Connect env m4) \<noteq> None \<longrightarrow>
                 reconnectToDc env ro m newDcID = Connect env m4)))"
  by (auto simp add: reconnectToDc_def logf_def Let_def split: prod.splits option.splits)


text \<open>
  With an empty table every reconnect on the example network fails, whatever the id,
  and leaves the table empty; so the retry of \<^verbatim>\<open>reconnectLogged\<close> never comes to an end.
\<close>

lemma reconnectToDc_empty_table:
  "dcOptions m = [] \<Longrightarrow>
   \<exists>m1. reconnectToDc example_net ro m d = (Some (Errorf ''wrong DC number: %d'' [sint d]), m1)
        \<and> dcOptions m1 = [] \<and> session m1 = session m"
  by (simp add: reconnectToDc_def stopRoutines_def example_net_def logf_def Let_def)

lemma reconnect_loop_empty_table:
  "dcOptions m = [] \<Longrightarrow> reconnect_loop example_net ro fuel m = None"
proof (induction fuel arbitrary: m)
  case 0
  show ?case by simp
next
  case (Suc fuel)
  from reconnectToDc_empty_table[OF Suc.prems, of ro "DcID (session m)"]
  obtain m1 where r: "reconnectToDc example_net ro m (DcID (session m))
      = (Some (Errorf ''wrong DC number: %d'' [sint (DcID (session m))]), m1)"
    and d: "dcOptions m1 = []"
    by blast
  have "dcOptions (logf LvInfo ''retrying in 5 seconds''
      (logf LvError ''failed to reconnect'' m1)) = []"
    using d by (simp add: logf_def)
  from Suc.IH[OF this] show ?case by (simp add: r)
qed

text \<open>
  C7. The claim that the table of DC options is consulted only when the data center
  changes fails on the code. The workers start before the first configuration reply
  fills the table; a client in that state, attached to data center 2 at an address its
  session holds, gets "wrong DC number" from a reconnect to its own data center, and
  \<^verbatim>\<open>reconnectLogged\<close> does not return for any amount of fuel. With the entry in the table
  the same reconnect succeeds.
\<close>

theorem C7_current_dc_needs_table:
  "dcOptions (example_client\<lparr>dcOptions := []\<rparr>) = []
   \<and> DcID (session (example_client\<lparr>dcOptions := []\<rparr>)) = 2
   \<and> Addr (session (example_client\<lparr>dcOptions := []\<rparr>)) = [49, 58, 50]
   \<and> fst (reconnectToDc example_net example_order (example_client\<lparr>dcOptions := []\<rparr>) 2)
       = Some (Errorf ''wrong DC number: %d'' [2])
   \<and> (\<forall>fuel. reconnectLogged example_net example_order fuel
                 (example_client\<lparr>dcOptions := []\<rparr>) = None)
   \<and> fst (reconnectToDc example_net example_order example_client 2) = None"
proof -
  have a: "DcID (session (example_client\<lparr>dcOptions := []\<rparr>)) = 2"
    "Addr (session (example_client\<lparr>dcOptions := []\<rparr>)) = [49, 58, 50]"
    "\<not> reconnSemaphore (example_client\<lparr>dcOptions := []\<rparr>)"
    by (simp_all add: example_client_def example_session_def)
  from reconnectToDc_empty_table[of "example_client\<lparr>dcOptions := []\<rparr>" example_order 2]
  have b: "fst (reconnectToDc example_net example_order (example_client\<lparr>dcOptions := []\<rparr>) 2)
       = Some (Errorf ''wrong DC number: %d'' [2])"
    by auto
  have c: "reconnectLogged example_net example_order fuel
                 (example_client\<lparr>dcOptions := []\<rparr>) = None" for fuel
    using a(3)
    by (simp add: reconnectLogged_def reconnect_loop_empty_table logf_def)
  have d: "fst (reconnectToDc example_net example_order example_client 2) = None"
    by (simp add: reconnectToDc_def stopRoutines_def logf_def ROUTINES_COUNT_def
        example_client_def example_session_def example_net_def format_d_def Let_def)
  show ?thesis using a b c d by simp
qed

subsection \<open>The reconnect semaphore\<close>

text \<open>
  \<^verbatim>\<open>reconnectLogged\<close> tests the semaphore: when its token is taken, the function logs
  and returns without running a reconnect, for every amount of fuel.
\<close>

lemma reconnectLogged_busy:
  "reconnSemaphore m \<Longrightarrow>
   reconnectLogged env ro fuel m =
     Some (logf LvInfo ''reconnection already in progress, aborting''
             (logf LvInfo ''reconnecting...'' m))"
  by (simp add: reconnectLogged_def logf_def)

text \<open>
  C9. The claim that every entry point takes the semaphore fails for the exported
  \<^verbatim>\<open>Reconnect\<close>, which calls \<^verbatim>\<open>reconnectToDc\<close> directly. In a state whose semaphore is
  taken (a reconnect is in progress), \<^verbatim>\<open>reconnectLogged\<close> returns at once, while
  \<^verbatim>\<open>Reconnect\<close> runs the whole procedure: it stops the routines, connects, and queues
  the pending packets again.
\<close>

theorem C9_Reconnect_ignores_semaphore:
  "reconnSemaphore (example_client\<lparr>reconnSemaphore := True\<rparr>)
   \<and> reconnectLogged example_net example_order 3 (example_client\<lparr>reconnSemaphore := True\<rparr>) =
       Some (example_client\<lparr>reconnSemaphore := True,
               log := [(LvInfo, ''reconnecting...''),
                       (LvInfo, ''reconnection already in progress, aborting'')]\<rparr>)
   \<and> fst (Reconnect example_net example_order (example_client\<lparr>reconnSemaphore := True\<rparr>)) = None
   \<and> map snd (log (snd (Reconnect example_net example_order
                            (example_client\<lparr>reconnSemaphore := True\<rparr>)))) =
       [''reconnecting: DC %d -> %d'', ''stopping routines...'', ''waiting for routines...'',
        ''done stopping routines...'', ''found %d pending packet(s)'',
        ''pushed %d pending packet(s)'', ''reconnected to DC %d (%s)'']
   \<and> sendQueue (snd (Reconnect example_net example_order
                        (example_client\<lparr>reconnSemaphore := True\<rparr>))) = [1, 0]
   \<and> Addr (session (snd (Reconnect example_net example_order
                        (example_client\<lparr>reconnSemaphore := True\<rparr>)))) = [49, 46, 50, 58, 52, 52, 51]"
proof -
  have a: "reconnectLogged example_net example_order 3 (example_client\<lparr>reconnSemaphore := True\<rparr>) =
       Some (example_client\<lparr>reconnSemaphore := True,
               log := [(LvInfo, ''reconnecting...''),
                       (LvInfo, ''reconnection already in progress, aborting'')]\<rparr>)"
    by (simp add: reconnectLogged_busy logf_def) (simp add: example_client_def)
  have s: "stopRoutines example_net (example_client\<lparr>reconnSemaphore := True\<rparr>) =
     (None, example_client\<lparr>reconnSemaphore := True, routinesWG := 0,
        log := [(LvInfo, ''reconnecting: DC %d -> %d''), (LvDebug, ''stopping routines...''),
                (LvDebug, ''waiting for routines...''), (LvDebug, ''done stopping routines...'')]\<rparr>)"
    by (simp add: stopRoutines_def example_net_def example_client_def logf_def ROUTINES_COUNT_def)
  have b: "fst (Reconnect example_net example_order (example_client\<lparr>reconnSemaphore := True\<rparr>)) = None"
    "map snd (log (snd (Reconnect example_net example_order
                            (example_client\<lparr>reconnSemaphore := True\<rparr>)))) =
       [''reconnecting: DC %d -> %d'', ''stopping routines...'', ''waiting for routines...'',
        ''done stopping routines...'', ''found %d pending packet(s)'',
        ''pushed %d pending packet(s)'', ''reconnected to DC %d (%s)'']"
    "sendQueue (snd (Reconnect example_net example_order
                        (example_client\<lparr>reconnSemaphore := True\<rparr>))) = [1, 0]"
    "Addr (session (snd (Reconnect example_net example_order
                        (example_client\<lparr>reconnSemaphore := True\<rparr>)))) = [49, 46, 50, 58, 52, 52, 51]"
    by (simp_all add: Reconnect_def reconnectToDc_def s logf_def)
       (simp_all add: example_client_def example_session_def example_net_def format_d_def
          Let_def example_order_def pushPendingPacketsUnlocked_def logf_def
          List.map_filter_simps)
  show ?thesis using a b by simp
qed

end
